theory Spec2Isabelle
  imports Complex_Main "HOL-Library.Log_Nat" "HOL-Library.Monad_Syntax"
begin

section \<open>Strings\<close>

text \<open>
  A Python \<open>str\<close> is modelled as a \<^typ>\<open>string\<close> whose characters are the code points
  0..255. On this range the character classes below are the ones of CPython:
  \<open>str.isspace\<close>, \<open>str.strip\<close> and the regular expression class \<open>\s\<close> agree on
  the twelve code points of \<open>is_space\<close>, \<open>\d\<close> is the ten ASCII digits, and
  \<open>str.lower\<close> maps one character to one character.
\<close>

definition is_space :: "char \<Rightarrow> bool" where
  "is_space c = (of_char c \<in> {9, 10, 11, 12, 13, 28, 29, 30, 31, 32, 133, 160 :: nat})"

definition is_digit :: "char \<Rightarrow> bool" where
  "is_digit c = (48 \<le> (of_char c :: nat) \<and> (of_char c :: nat) \<le> 57)"

definition lower_char :: "char \<Rightarrow> char" where
  "lower_char c =
     (let n = of_char c :: nat
      in if (65 \<le> n \<and> n \<le> 90) \<or> (192 \<le> n \<and> n \<le> 222 \<and> n \<noteq> 215)
         then char_of (n + 32) else c)"

text \<open>\<open>str.upper\<close> on ASCII strings, the only ones it is applied to (the result of
  \<open>rgb_to_hex\<close>).\<close>

definition upper_char :: "char \<Rightarrow> char" where
  "upper_char c =
     (let n = of_char c :: nat
      in if 97 \<le> n \<and> n \<le> 122 then char_of (n - 32) else c)"

definition py_lower :: "string \<Rightarrow> string" where
  "py_lower s = map lower_char s"

definition py_upper :: "string \<Rightarrow> string" where
  "py_upper s = map upper_char s"

definition py_strip :: "string \<Rightarrow> string" where
  "py_strip s = rev (dropWhile is_space (rev (dropWhile is_space s)))"

text \<open>\<open>s.lstrip("#")\<close> removes every leading \<open>#\<close>, not only one.\<close>

definition lstrip_hash :: "string \<Rightarrow> string" where
  "lstrip_hash s = dropWhile (\<lambda>c. c = CHR ''#'') s"

section \<open>Exceptions\<close>

datatype error = ValueError | OverflowError | ZeroDivisionError

definition ebind :: "error + 'a \<Rightarrow> ('a \<Rightarrow> error + 'b) \<Rightarrow> error + 'b" where
  "ebind m f = (case m of Inl e \<Rightarrow> Inl e | Inr x \<Rightarrow> f x)"

section \<open>Integers and their text\<close>

text \<open>
  \<open>int(s, base)\<close> for base 10 and 16, as CPython parses a \<open>str\<close>: whitespace on both
  sides, one optional sign, for base 16 an optional \<open>0x\<close> or \<open>0X\<close> (which one
  underscore may follow), then digits with single underscores between them. The
  whitespace of \<open>int\<close> is narrower than \<open>str.isspace\<close>: the code points 28..31 are
  not accepted. The integers are Python's unbounded ones; the interpreter's configurable
  guard on the length of converted digit strings is a resource limit of the runtime and
  is not part of the model.
\<close>

definition is_int_space :: "char \<Rightarrow> bool" where
  "is_int_space c = (of_char c \<in> {9, 10, 11, 12, 13, 32, 133, 160 :: nat})"

definition digit_val :: "nat \<Rightarrow> char \<Rightarrow> nat option" where
  "digit_val base c =
     (let n = of_char c :: nat;
          v = (if 48 \<le> n \<and> n \<le> 57 then n - 48
               else if 97 \<le> n \<and> n \<le> 122 then n - 87
               else if 65 \<le> n \<and> n \<le> 90 then n - 55
               else 36)
      in if v < base then Some v else None)"

text \<open>The digits after the first one: \<open>scan_more base acc s\<close> returns the value read and
  the rest of the string, or \<open>None\<close> when an underscore is not followed by a digit.\<close>

fun scan_more :: "nat \<Rightarrow> nat \<Rightarrow> string \<Rightarrow> (nat \<times> string) option" where
  "scan_more base acc [] = Some (acc, [])"
| "scan_more base acc [c] =
     (case digit_val base c of
        Some d \<Rightarrow> Some (acc * base + d, [])
      | None \<Rightarrow> if c = CHR ''_'' then None else Some (acc, [c]))"
| "scan_more base acc (c # c' # cs) =
     (case digit_val base c of
        Some d \<Rightarrow> scan_more base (acc * base + d) (c' # cs)
      | None \<Rightarrow>
          if c = CHR ''_'' then
            (case digit_val base c' of
               Some d \<Rightarrow> scan_more base (acc * base + d) cs
             | None \<Rightarrow> None)
          else Some (acc, c # c' # cs))"

definition scan_digits :: "nat \<Rightarrow> string \<Rightarrow> (nat \<times> string) option" where
  "scan_digits base s =
     (case s of
        [] \<Rightarrow> None
      | c # cs \<Rightarrow>
          (case digit_val base c of
             None \<Rightarrow> None
           | Some d \<Rightarrow> scan_more base d cs))"

definition skip_prefix :: "nat \<Rightarrow> string \<Rightarrow> string" where
  "skip_prefix base s =
     (case s of
        c # x # t \<Rightarrow>
          if base = 16 \<and> c = CHR ''0'' \<and> (x = CHR ''x'' \<or> x = CHR ''X'') then
            (case t of u # t' \<Rightarrow> if u = CHR ''_'' then t' else t | [] \<Rightarrow> t)
          else s
      | _ \<Rightarrow> s)"

definition py_int :: "nat \<Rightarrow> string \<Rightarrow> error + int" where
  "py_int base s =
     (let s1 = dropWhile is_int_space s;
          neg = (s1 \<noteq> [] \<and> hd s1 = CHR ''-'');
          s2 = (if s1 \<noteq> [] \<and> (hd s1 = CHR ''+'' \<or> hd s1 = CHR ''-'') then tl s1 else s1)
      in case scan_digits base (skip_prefix base s2) of
           None \<Rightarrow> Inl ValueError
         | Some (v, rest) \<Rightarrow>
             if list_all is_int_space rest
             then Inr (if neg then - int v else int v)
             else Inl ValueError)"

text \<open>The text of a natural number in a base up to 16, lower case, most significant
  digit first; \<open>0\<close> is \<open>''0''\<close>.\<close>

definition digit_char :: "nat \<Rightarrow> char" where
  "digit_char d = ''0123456789abcdef'' ! d"

fun nat_text :: "nat \<Rightarrow> nat \<Rightarrow> string" where
  "nat_text base n =
     (if n < base \<or> base < 2 then [digit_char n]
      else nat_text base (n div base) @ [digit_char (n mod base)])"

text \<open>\<open>f"{n}"\<close>: decimal, with a minus sign for a negative number.\<close>

definition py_str :: "int \<Rightarrow> string" where
  "py_str n = (if n < 0 then CHR ''-'' # nat_text 10 (nat (- n)) else nat_text 10 (nat n))"

text \<open>\<open>f"{n:02x}"\<close>: lower-case hexadecimal, padded with zeros to width 2; the sign
  counts for the width, so a negative number is never padded.\<close>

definition fmt_02x :: "int \<Rightarrow> string" where
  "fmt_02x n =
     (if n < 0 then CHR ''-'' # nat_text 16 (nat (- n))
      else let t = nat_text 16 (nat n) in replicate (2 - length t) CHR ''0'' @ t)"

section \<open>The codec: hex\<close>

definition hex_to_rgb :: "string \<Rightarrow> error + (int \<times> int \<times> int)" where
  "hex_to_rgb hex_color =
     (let h = lstrip_hash hex_color;
          h = (if length h = 3 then concat (map (\<lambda>c. [c, c]) h) else h)
      in ebind (py_int 16 (take 2 h)) (\<lambda>r.
         ebind (py_int 16 (take 2 (drop 2 h))) (\<lambda>g.
         ebind (py_int 16 (take 2 (drop 4 h))) (\<lambda>b.
         Inr (r, g, b)))))"

definition rgb_to_hex :: "int \<Rightarrow> int \<Rightarrow> int \<Rightarrow> string" where
  "rgb_to_hex r g b = CHR ''#'' # fmt_02x r @ fmt_02x g @ fmt_02x b"

section \<open>Floating point\<close>

text \<open>
  A Python \<open>float\<close> is an IEEE 754 binary64 number. A finite one is modelled by the
  rational it denotes; the two zeros are one value, since the program only compares
  floats, does arithmetic on them and converts them to \<open>int\<close>, none of which tells the
  zeros apart. Every arithmetic operation computes the exact rational result and rounds
  it to the nearest binary64 number, ties to the even significand, with gradual underflow
  below \<open>2^-1022\<close> and overflow to an infinity from \<open>2^1024\<close> on.
\<close>

datatype fl = Fin rat | PInf | NInf | NaN

definition pow2 :: "int \<Rightarrow> rat" where
  "pow2 k = (if 0 \<le> k then 2 ^ nat k else 1 / 2 ^ nat (- k))"

text \<open>\<open>ilog2 x\<close> is the exponent \<open>e\<close> with \<open>2^e \<le> x < 2^(e+1)\<close>, for \<open>x > 0\<close>.\<close>

definition ilog2 :: "rat \<Rightarrow> int" where
  "ilog2 x = (if 1 \<le> x then bitlen \<lfloor>x\<rfloor> - 1 else - bitlen (\<lceil>1 / x\<rceil> - 1))"

text \<open>Rounding to the nearest integer, ties to even.\<close>

definition rne :: "rat \<Rightarrow> int" where
  "rne q =
     (let f = \<lfloor>q\<rfloor>; d = q - of_int f
      in if d < 1 / 2 then f
         else if 1 / 2 < d then f + 1
         else if even f then f else f + 1)"

text \<open>The spacing of the binary64 numbers around \<open>x\<close> is \<open>2^quantum x\<close>: 53 significant
  bits, and never finer than \<open>2^-1074\<close>.\<close>

definition quantum :: "rat \<Rightarrow> int" where
  "quantum x = max (ilog2 \<bar>x\<bar> - 52) (- 1074)"

definition rnd :: "rat \<Rightarrow> rat" where
  "rnd x = (if x = 0 then 0 else of_int (rne (x / pow2 (quantum x))) * pow2 (quantum x))"

definition fround :: "rat \<Rightarrow> fl" where
  "fround x =
     (let y = rnd x
      in if 2 ^ 1024 \<le> y then PInf else if y \<le> - (2 ^ 1024) then NInf else Fin y)"

fun fneg :: "fl \<Rightarrow> fl" where
  "fneg (Fin a) = Fin (- a)"
| "fneg PInf = NInf"
| "fneg NInf = PInf"
| "fneg NaN = NaN"

fun fadd :: "fl \<Rightarrow> fl \<Rightarrow> fl" where
  "fadd (Fin a) (Fin b) = fround (a + b)"
| "fadd NaN _ = NaN"
| "fadd _ NaN = NaN"
| "fadd PInf NInf = NaN"
| "fadd NInf PInf = NaN"
| "fadd PInf _ = PInf"
| "fadd NInf _ = NInf"
| "fadd _ PInf = PInf"
| "fadd _ NInf = NInf"

definition fsub :: "fl \<Rightarrow> fl \<Rightarrow> fl" where
  "fsub x y = fadd x (fneg y)"

text \<open>The sign of a float that is not a NaN: \<open>-1\<close>, \<open>0\<close> or \<open>1\<close>.\<close>

fun fsgn :: "fl \<Rightarrow> int" where
  "fsgn (Fin a) = (if a < 0 then - 1 else if a = 0 then 0 else 1)"
| "fsgn PInf = 1"
| "fsgn NInf = - 1"
| "fsgn NaN = 0"

definition inf_of_sign :: "int \<Rightarrow> fl" where
  "inf_of_sign k = (if k = 0 then NaN else if 0 < k then PInf else NInf)"

fun fmul :: "fl \<Rightarrow> fl \<Rightarrow> fl" where
  "fmul (Fin a) (Fin b) = fround (a * b)"
| "fmul NaN _ = NaN"
| "fmul _ NaN = NaN"
| "fmul x y = inf_of_sign (fsgn x * fsgn y)"

text \<open>\<open>x / y\<close> on floats raises \<open>ZeroDivisionError\<close> for a zero divisor, whatever \<open>x\<close>
  is.\<close>

fun fdiv :: "fl \<Rightarrow> fl \<Rightarrow> error + fl" where
  "fdiv x (Fin b) =
     (if b = 0 then Inl ZeroDivisionError
      else case x of
             Fin a \<Rightarrow> Inr (fround (a / b))
           | NaN \<Rightarrow> Inr NaN
           | _ \<Rightarrow> Inr (inf_of_sign (fsgn x * fsgn (Fin b))))"
| "fdiv _ NaN = Inr NaN"
| "fdiv (Fin a) _ = Inr (Fin 0)"
| "fdiv _ _ = Inr NaN"

text \<open>\<open>x % 1.0\<close>: C's \<open>fmod\<close>, which is exact and has the sign of \<open>x\<close>, and then one
  (rounded) addition of the divisor when the remainder is negative.\<close>

fun fmod_one :: "fl \<Rightarrow> fl" where
  "fmod_one (Fin a) =
     (let m = a - of_int (if 0 \<le> a then \<lfloor>a\<rfloor> else \<lceil>a\<rceil>)
      in if m < 0 then fround (m + 1) else Fin m)"
| "fmod_one _ = NaN"

text \<open>Comparisons: false whenever an operand is a NaN.\<close>

fun flt :: "fl \<Rightarrow> fl \<Rightarrow> bool" where
  "flt NaN _ = False"
| "flt _ NaN = False"
| "flt (Fin a) (Fin b) = (a < b)"
| "flt PInf _ = False"
| "flt _ PInf = True"
| "flt NInf y = (y \<noteq> NInf)"
| "flt _ NInf = False"

definition feq :: "fl \<Rightarrow> fl \<Rightarrow> bool" where
  "feq x y = (x \<noteq> NaN \<and> x = y)"

definition fle :: "fl \<Rightarrow> fl \<Rightarrow> bool" where
  "fle x y = (flt x y \<or> feq x y)"

text \<open>The built-in \<open>max\<close> and \<open>min\<close> of three arguments keep the first argument until a
  later one compares strictly greater (smaller).\<close>

definition max3 :: "fl \<Rightarrow> fl \<Rightarrow> fl \<Rightarrow> fl" where
  "max3 a b c = (let m = (if flt a b then b else a) in if flt m c then c else m)"

definition min3 :: "fl \<Rightarrow> fl \<Rightarrow> fl \<Rightarrow> fl" where
  "min3 a b c = (let m = (if flt b a then b else a) in if flt c m then c else m)"

text \<open>An \<open>int\<close> operand of a float operation is converted first; the conversion rounds
  like every operation and raises \<open>OverflowError\<close> where the result would be infinite.\<close>

definition float_of_int :: "int \<Rightarrow> error + fl" where
  "float_of_int n =
     (case fround (of_int n) of Fin y \<Rightarrow> Inr (Fin y) | _ \<Rightarrow> Inl OverflowError)"

text \<open>\<open>int(x)\<close> truncates towards zero; an infinity raises \<open>OverflowError\<close>, a NaN
  \<open>ValueError\<close>.\<close>

fun int_of_float :: "fl \<Rightarrow> error + int" where
  "int_of_float (Fin a) = Inr (if 0 \<le> a then \<lfloor>a\<rfloor> else \<lceil>a\<rceil>)"
| "int_of_float NaN = Inl ValueError"
| "int_of_float _ = Inl OverflowError"

text \<open>\<open>n / d\<close> for an \<open>int\<close> \<open>n\<close> and a float literal \<open>d\<close>, and \<open>int(x * k)\<close> for a float
  \<open>x\<close> and an \<open>int\<close> literal \<open>k\<close>.\<close>

definition int_div_float :: "int \<Rightarrow> fl \<Rightarrow> error + fl" where
  "int_div_float n d = ebind (float_of_int n) (\<lambda>x. fdiv x d)"

definition int_of_scaled :: "fl \<Rightarrow> int \<Rightarrow> error + int" where
  "int_of_scaled x k = ebind (float_of_int k) (\<lambda>y. int_of_float (fmul x y))"

section \<open>The library module colorsys\<close>

text \<open>The functions \<open>rgb_to_hls\<close>, \<open>hls_to_rgb\<close> and \<open>_v\<close> of the standard library, which
  the codec imports. Their constants are computed by float divisions at import time.\<close>

definition ONE_THIRD :: fl where "ONE_THIRD = fround (1 / 3)"
definition ONE_SIXTH :: fl where "ONE_SIXTH = fround (1 / 6)"
definition TWO_THIRD :: fl where "TWO_THIRD = fround (2 / 3)"

definition rgb_to_hls :: "fl \<Rightarrow> fl \<Rightarrow> fl \<Rightarrow> error + (fl \<times> fl \<times> fl)" where
  "rgb_to_hls r g b =
     (let maxc = max3 r g b;
          minc = min3 r g b;
          sumc = fadd maxc minc;
          rangec = fsub maxc minc
      in ebind (fdiv sumc (Fin 2)) (\<lambda>l.
         if feq minc maxc then Inr (Fin 0, l, Fin 0)
         else
           ebind (if fle l (Fin (1 / 2)) then fdiv rangec sumc
                  else fdiv rangec (fsub (fsub (Fin 2) maxc) minc)) (\<lambda>s.
           ebind (fdiv (fsub maxc r) rangec) (\<lambda>rc.
           ebind (fdiv (fsub maxc g) rangec) (\<lambda>gc.
           ebind (fdiv (fsub maxc b) rangec) (\<lambda>bc.
           let h = (if feq r maxc then fsub bc gc
                    else if feq g maxc then fsub (fadd (Fin 2) rc) bc
                    else fsub (fadd (Fin 4) gc) rc)
           in ebind (fdiv h (Fin 6)) (\<lambda>h6.
              Inr (fmod_one h6, l, s))))))))"

definition v_hls :: "fl \<Rightarrow> fl \<Rightarrow> fl \<Rightarrow> fl" where
  "v_hls m1 m2 hue0 =
     (let hue = fmod_one hue0
      in if flt hue ONE_SIXTH then fadd m1 (fmul (fmul (fsub m2 m1) hue) (Fin 6))
         else if flt hue (Fin (1 / 2)) then m2
         else if flt hue TWO_THIRD
           then fadd m1 (fmul (fmul (fsub m2 m1) (fsub TWO_THIRD hue)) (Fin 6))
         else m1)"

definition hls_to_rgb :: "fl \<Rightarrow> fl \<Rightarrow> fl \<Rightarrow> fl \<times> fl \<times> fl" where
  "hls_to_rgb h l s =
     (if feq s (Fin 0) then (l, l, l)
      else
        let m2 = (if fle l (Fin (1 / 2)) then fmul l (fadd (Fin 1) s)
                  else fsub (fadd l s) (fmul l s));
            m1 = fsub (fmul (Fin 2) l) m2
        in (v_hls m1 m2 (fadd h ONE_THIRD), v_hls m1 m2 h, v_hls m1 m2 (fsub h ONE_THIRD)))"

section \<open>The codec: HSL\<close>

definition rgb_to_hsl :: "int \<Rightarrow> int \<Rightarrow> int \<Rightarrow> error + (int \<times> int \<times> int)" where
  "rgb_to_hsl r g b =
     ebind (int_div_float r (Fin 255)) (\<lambda>r'.
     ebind (int_div_float g (Fin 255)) (\<lambda>g'.
     ebind (int_div_float b (Fin 255)) (\<lambda>b'.
     ebind (rgb_to_hls r' g' b') (\<lambda>(h, l, s).
     ebind (int_of_scaled h 360) (\<lambda>h''.
     ebind (int_of_scaled s 100) (\<lambda>s''.
     ebind (int_of_scaled l 100) (\<lambda>l''.
     Inr (h'', s'', l''))))))))"

definition hsl_to_rgb_tuple :: "int \<Rightarrow> int \<Rightarrow> int \<Rightarrow> error + (int \<times> int \<times> int)" where
  "hsl_to_rgb_tuple h s l =
     ebind (int_div_float h (Fin 360)) (\<lambda>h'.
     ebind (int_div_float s (Fin 100)) (\<lambda>s'.
     ebind (int_div_float l (Fin 100)) (\<lambda>l'.
     case hls_to_rgb h' l' s' of (r, g, b) \<Rightarrow>
     ebind (int_of_scaled r 255) (\<lambda>r''.
     ebind (int_of_scaled g 255) (\<lambda>g''.
     ebind (int_of_scaled b 255) (\<lambda>b''.
     Inr (r'', g'', b'')))))))"

section \<open>The format detector\<close>

text \<open>
  The four regular expressions of \<open>parse_color\<close>, each tried with \<open>re.match\<close>, that is,
  at the start of the string. A matcher returns the captured groups. In the three
  unanchored patterns every repetition is followed by a character of another class
  (white space, then a digit or a punctuation mark; digits, then white space or a
  punctuation mark), so the greedy choice is the only one that can succeed and the
  matcher scans from left to right without backtracking.
\<close>

definition is_hex_lower :: "char \<Rightarrow> bool" where
  "is_hex_lower c =
     (let n = of_char c :: nat in (48 \<le> n \<and> n \<le> 57) \<or> (97 \<le> n \<and> n \<le> 102))"

text \<open>\<open>^#?([0-9a-f]{3}|[0-9a-f]{6})$\<close>. The \<open>$\<close> also matches before a newline that ends
  the string.\<close>

definition hex_match :: "string \<Rightarrow> string option" where
  "hex_match s =
     (let t = (case s of c # cs \<Rightarrow> if c = CHR ''#'' then cs else s | [] \<Rightarrow> s);
          g = (if t \<noteq> [] \<and> last t = CHR 0x0A then butlast t else t)
      in if (length g = 3 \<or> length g = 6) \<and> list_all is_hex_lower g then Some g else None)"

text \<open>\<open>\s*\<close>, a literal character, a literal word, \<open>(\d+)\<close> and \<open>%?\<close>.\<close>

definition skip_spaces :: "string \<Rightarrow> string" where
  "skip_spaces s = dropWhile is_space s"

definition expect :: "char \<Rightarrow> string \<Rightarrow> string option" where
  "expect c s = (case s of x # xs \<Rightarrow> if x = c then Some xs else None | [] \<Rightarrow> None)"

definition expect_word :: "string \<Rightarrow> string \<Rightarrow> string option" where
  "expect_word w s = (if take (length w) s = w then Some (drop (length w) s) else None)"

definition digits1 :: "string \<Rightarrow> (string \<times> string) option" where
  "digits1 s =
     (if s \<noteq> [] \<and> is_digit (hd s) then Some (takeWhile is_digit s, dropWhile is_digit s)
      else None)"

definition opt_char :: "char \<Rightarrow> string \<Rightarrow> string" where
  "opt_char c s = (case s of x # xs \<Rightarrow> if x = c then xs else s | [] \<Rightarrow> s)"

text \<open>\<open>rgb\s*\(\s*(\d+)\s*,\s*(\d+)\s*,\s*(\d+)\s*\)\<close>\<close>

definition rgb_match :: "string \<Rightarrow> (string \<times> string \<times> string) option" where
  "rgb_match s0 =
     do {
       s \<leftarrow> expect_word ''rgb'' s0;
       s \<leftarrow> expect CHR ''('' (skip_spaces s);
       (r, s) \<leftarrow> digits1 (skip_spaces s);
       s \<leftarrow> expect CHR '','' (skip_spaces s);
       (g, s) \<leftarrow> digits1 (skip_spaces s);
       s \<leftarrow> expect CHR '','' (skip_spaces s);
       (b, s) \<leftarrow> digits1 (skip_spaces s);
       _ \<leftarrow> expect CHR '')'' (skip_spaces s);
       Some (r, g, b)
     }"

text \<open>\<open>(\d+)\s*,\s*(\d+)\s*,\s*(\d+)\<close>\<close>

definition comma_match :: "string \<Rightarrow> (string \<times> string \<times> string) option" where
  "comma_match s0 =
     do {
       (r, s) \<leftarrow> digits1 s0;
       s \<leftarrow> expect CHR '','' (skip_spaces s);
       (g, s) \<leftarrow> digits1 (skip_spaces s);
       s \<leftarrow> expect CHR '','' (skip_spaces s);
       (b, s) \<leftarrow> digits1 (skip_spaces s);
       Some (r, g, b)
     }"

text \<open>\<open>hsl\s*\(\s*(\d+)\s*,\s*(\d+)%?\s*,\s*(\d+)%?\s*\)\<close>\<close>

definition hsl_match :: "string \<Rightarrow> (string \<times> string \<times> string) option" where
  "hsl_match s0 =
     do {
       s \<leftarrow> expect_word ''hsl'' s0;
       s \<leftarrow> expect CHR ''('' (skip_spaces s);
       (h, s) \<leftarrow> digits1 (skip_spaces s);
       s \<leftarrow> expect CHR '','' (skip_spaces s);
       (sa, s) \<leftarrow> digits1 (skip_spaces s);
       s \<leftarrow> expect CHR '','' (skip_spaces (opt_char CHR ''%'' s));
       (l, s) \<leftarrow> digits1 (skip_spaces s);
       _ \<leftarrow> expect CHR '')'' (skip_spaces (opt_char CHR ''%'' s));
       Some (h, sa, l)
     }"

text \<open>\<open>map(int, m.groups())\<close>, unpacked into three names.\<close>

definition ints3 :: "string \<times> string \<times> string \<Rightarrow> error + (int \<times> int \<times> int)" where
  "ints3 gs =
     (case gs of (a, b, c) \<Rightarrow>
        ebind (py_int 10 a) (\<lambda>x.
        ebind (py_int 10 b) (\<lambda>y.
        ebind (py_int 10 c) (\<lambda>z.
        Inr (x, y, z)))))"

text \<open>\<open>parse_color\<close> returns a tuple of the format's name and the three channels, or
  \<open>None\<close>; an exception that leaves it is the \<open>Inl\<close> of the result.\<close>

definition parse_color :: "string \<Rightarrow> error + (string \<times> int \<times> int \<times> int) option" where
  "parse_color color_str0 =
     (let color_str = py_lower (py_strip color_str0)
      in case hex_match color_str of
           Some grp \<Rightarrow>
             ebind (hex_to_rgb grp) (\<lambda>(r, g, b). Inr (Some (''hex'', r, g, b)))
         | None \<Rightarrow>
        (case rgb_match color_str of
           Some gs \<Rightarrow>
             ebind (ints3 gs) (\<lambda>(r, g, b). Inr (Some (''rgb'', r, g, b)))
         | None \<Rightarrow>
        (case comma_match color_str of
           Some gs \<Rightarrow>
             ebind (ints3 gs) (\<lambda>(r, g, b). Inr (Some (''rgb'', r, g, b)))
         | None \<Rightarrow>
        (case hsl_match color_str of
           Some gs \<Rightarrow>
             ebind (ints3 gs) (\<lambda>(h, s, l).
             ebind (hsl_to_rgb_tuple h s l) (\<lambda>(r, g, b).
             Inr (Some (''hsl'', r, g, b))))
         | None \<Rightarrow> Inr None))))"

section \<open>The representations of a colour\<close>

record entry =
  title :: string
  subtitle :: string
  command :: string

text \<open>The literals of the source hold two characters beyond code point 255, the block
  U+2588 of the preview and the bullet U+2022 of the subtitles; they are written here as
  their UTF-8 bytes.\<close>

definition preview :: string where
  "preview = concat (replicate 5 [CHR 0xE2, CHR 0x96, CHR 0x88])"

definition bullet :: string where
  "bullet = [CHR 0xE2, CHR 0x80, CHR 0xA2]"

definition sq :: string where
  "sq = [CHR 0x27]"

definition copy_command :: "string \<Rightarrow> string \<Rightarrow> string" where
  "copy_command text note =
     ''echo -n '' @ sq @ text @ sq @ '' | wl-copy && notify-send 'Color Copied' ''
       @ sq @ note @ sq"

definition clamp :: "int \<Rightarrow> int" where
  "clamp x = max 0 (min 255 x)"

definition generate_color_results ::
    "int \<Rightarrow> int \<Rightarrow> int \<Rightarrow> string \<Rightarrow> error + entry list" where
  "generate_color_results r0 g0 b0 original_format =
     (let r = clamp r0; g = clamp g0; b = clamp b0;
          hex_color = py_upper (rgb_to_hex r g b)
      in ebind (rgb_to_hsl r g b) (\<lambda>(h, s, l).
         let rgb_str = ''rgb('' @ py_str r @ '', '' @ py_str g @ '', '' @ py_str b @ '')'';
             hsl_str = ''hsl('' @ py_str h @ '', '' @ py_str s @ ''%, '' @ py_str l @ ''%)'';
             css_var = ''--color: '' @ hex_color @ '';'';
             tailwind_hint = ''Use hex '' @ hex_color @ '' in Tailwind''
         in Inr
           [\<lparr>title = preview @ ''  '' @ hex_color,
             subtitle = ''Hex Color '' @ bullet @ '' Click to copy'',
             command = copy_command hex_color hex_color\<rparr>,
            \<lparr>title = preview @ ''  '' @ rgb_str,
             subtitle = ''RGB Color '' @ bullet @ '' Click to copy'',
             command = copy_command rgb_str rgb_str\<rparr>,
            \<lparr>title = preview @ ''  '' @ hsl_str,
             subtitle = ''HSL Color '' @ bullet @ '' Click to copy'',
             command = copy_command hsl_str hsl_str\<rparr>,
            \<lparr>title = preview @ ''  '' @ css_var,
             subtitle = ''CSS Variable '' @ bullet @ '' Click to copy'',
             command = copy_command css_var ''CSS Variable''\<rparr>,
            \<lparr>title = preview @ ''  '' @ tailwind_hint,
             subtitle = ''Add to tailwind.config.js colors'',
             command = copy_command hex_color ''For Tailwind''\<rparr>]))"

section \<open>Character classes used in the statements\<close>






text \<open>The number that a string of ASCII digits denotes.\<close>

definition digits_value :: "string \<Rightarrow> nat" where
  "digits_value ds = foldl (\<lambda>a c. a * 10 + (of_char c - 48)) 0 ds"

section \<open>Hex round trip\<close>

lemma digit_char_props:
  assumes "a < 16"
  shows "digit_val 16 (digit_char a) = Some a"
    and "\<not> is_int_space (digit_char a)"
    and "digit_char a \<notin> {CHR ''+'', CHR ''-'', CHR ''_'', CHR ''x'', CHR ''X'', CHR ''#''}"
proof -
  have "\<forall>a\<in>set [0..<16]. digit_val 16 (digit_char a) = Some a \<and> \<not> is_int_space (digit_char a)
      \<and> digit_char a \<notin> {CHR ''+'', CHR ''-'', CHR ''_'', CHR ''x'', CHR ''X'', CHR ''#''}"
    by code_simp
  with assms show "digit_val 16 (digit_char a) = Some a"
    and "\<not> is_int_space (digit_char a)"
    and "digit_char a \<notin> {CHR ''+'', CHR ''-'', CHR ''_'', CHR ''x'', CHR ''X'', CHR ''#''}"
    by auto
qed

lemma py_int_16_pair:
  assumes "a < 16" "b < 16"
  shows "py_int 16 [digit_char a, digit_char b] = Inr (int (16 * a + b))"
  using digit_char_props[OF assms(1)] digit_char_props[OF assms(2)]
  by (simp add: py_int_def skip_prefix_def scan_digits_def mult.commute)

lemma nat_text_16_byte:
  assumes "m < 256"
  shows "replicate (2 - length (nat_text 16 m)) CHR ''0'' @ nat_text 16 m
         = [digit_char (m div 16), digit_char (m mod 16)]"
proof (cases "m < 16")
  case True
  then show ?thesis by (simp add: digit_char_def)
next
  case False
  with assms have "m div 16 < 16" by simp
  with False show ?thesis by simp
qed

lemma fmt_02x_byte:
  assumes "0 \<le> n" "n \<le> 255"
  shows "fmt_02x n = [digit_char (nat n div 16), digit_char (nat n mod 16)]"
  using assms nat_text_16_byte[of "nat n"] by (simp add: fmt_02x_def Let_def del: nat_text.simps)

lemma py_int_16_byte:
  assumes "0 \<le> n" "n \<le> 255"
  shows "py_int 16 [digit_char (nat n div 16), digit_char (nat n mod 16)] = Inr n"
proof -
  have "nat n div 16 < 16" "nat n mod 16 < 16" using assms by auto
  from py_int_16_pair[OF this] assms show ?thesis by simp
qed

text \<open>
  Claim C3. For all integers \<open>r\<close>, \<open>g\<close>, \<open>b\<close> in \<open>[0, 255]\<close>, \<open>hex_to_rgb\<close> applied to
  \<open>rgb_to_hex r g b\<close> returns exactly the triple \<open>(r, g, b)\<close>.
\<close>

theorem hex_round_trip:
  assumes "0 \<le> r" "r \<le> 255" "0 \<le> g" "g \<le> 255" "0 \<le> b" "b \<le> 255"
  shows "hex_to_rgb (rgb_to_hex r g b) = Inr (r, g, b)"
proof -
  have lt: "nat r div 16 < 16" using assms by auto
  have "digit_char (nat r div 16) \<noteq> CHR ''#''"
    using digit_char_props(3)[OF lt] by simp
  then show ?thesis
    using assms
    by (simp add: hex_to_rgb_def rgb_to_hex_def fmt_02x_byte lstrip_hash_def
        py_int_16_byte ebind_def)
qed

theorem hex_round_trip_witness:
  "hex_to_rgb (rgb_to_hex 255 87 51) = Inr (255, 87, 51)"
  using hex_round_trip[of 255 87 51] by simp

section \<open>Malformed hex strings\<close>



lemma char_eq_iff_code: "(c = d) = ((of_char c :: nat) = of_char d)"
  by auto












lemma ebind_Inl_ValueError:
  assumes "\<And>e. m = Inl e \<Longrightarrow> e = ValueError" "\<And>x. f x = Inl ValueError"
  shows "ebind m f = Inl ValueError"
  using assms by (cases m) (auto simp: ebind_def)




















section \<open>Characters\<close>

lemma digit_classes:
  assumes "is_digit c"
  shows "\<not> is_space c" "\<not> is_int_space c" "c \<noteq> CHR ''+''" "c \<noteq> CHR ''-''" "c \<noteq> CHR ''_''"
    "c \<noteq> CHR ''#''" "c \<noteq> CHR '',''" "c \<noteq> CHR ''%''" "c \<noteq> CHR ''(''" "c \<noteq> CHR '')''"
    "digit_val 10 c = Some (of_char c - 48)" "lower_char c = c"
  using assms
  by (auto simp: is_digit_def is_space_def is_int_space_def digit_val_def lower_char_def Let_def)

lemma space_classes:
  assumes "is_space c"
  shows "\<not> is_digit c" "lower_char c = c" "c \<noteq> CHR '',''" "c \<noteq> CHR ''%''" "c \<noteq> CHR ''(''"
    "c \<noteq> CHR '')''" "c \<noteq> CHR ''#''"
  using assms
  by (auto simp: is_digit_def is_space_def lower_char_def Let_def)

lemma is_digit_lower_char [simp]: "is_digit (lower_char c) = is_digit c"
  by (auto simp: is_digit_def lower_char_def Let_def)

lemma py_lower_append: "py_lower (a @ b) = py_lower a @ py_lower b"
  by (simp add: py_lower_def)

lemma py_lower_spaces: "list_all is_space w \<Longrightarrow> py_lower w = w"
  by (induction w) (auto simp: py_lower_def space_classes)

lemma py_lower_digits: "list_all is_digit d \<Longrightarrow> py_lower d = d"
  by (induction d) (auto simp: py_lower_def digit_classes)

section \<open>Decimal integers\<close>

lemma scan_more_digits:
  "list_all is_digit ds \<Longrightarrow>
   scan_more 10 acc ds = Some (foldl (\<lambda>a c. a * 10 + (of_char c - 48)) acc ds, [])"
  by (induction "10 :: nat" acc ds rule: scan_more.induct) (auto simp: digit_classes)

lemma py_int_digits:
  assumes "ds \<noteq> []" "list_all is_digit ds"
  shows "py_int 10 ds = Inr (int (digits_value ds))"
proof -
  obtain c cs where ds: "ds = c # cs" using assms(1) by (cases ds) auto
  with assms(2) have c: "is_digit c" and cs: "list_all is_digit cs" by auto
  have sp: "skip_prefix 10 (c # cs) = c # cs"
    by (simp add: skip_prefix_def split: list.splits)
  have "scan_digits 10 (c # cs) = Some (digits_value (c # cs), [])"
    using scan_more_digits[OF cs, of "of_char c - 48"] digit_classes(11)[OF c]
    by (simp add: scan_digits_def digits_value_def)
  then show ?thesis
    using digit_classes[OF c] by (simp add: py_int_def ds sp)
qed

lemma ints3_digits:
  assumes "a \<noteq> []" "list_all is_digit a" "b \<noteq> []" "list_all is_digit b"
    "c \<noteq> []" "list_all is_digit c"
  shows "ints3 (a, b, c) = Inr (int (digits_value a), int (digits_value b), int (digits_value c))"
  using assms by (simp add: ints3_def py_int_digits ebind_def)

lemma foldl_zeros:
  "foldl (\<lambda>a c. a * 10 + (of_char c - 48)) (acc :: nat) (replicate n CHR ''0'') = acc * 10 ^ n"
  by (induction n arbitrary: acc) simp_all

lemma digits_value_zeros: "digits_value (ds @ replicate n CHR ''0'') = digits_value ds * 10 ^ n"
  by (simp add: digits_value_def foldl_zeros)

section \<open>Pieces of the patterns\<close>

lemma skip_spaces_append: "list_all is_space w \<Longrightarrow> skip_spaces (w @ t) = skip_spaces t"
  by (induction w) (auto simp: skip_spaces_def)

lemma skip_spaces_Cons: "\<not> is_space c \<Longrightarrow> skip_spaces (c # t) = c # t"
  by (simp add: skip_spaces_def)

lemma expect_after_spaces:
  assumes "list_all is_space w" "\<not> is_space c"
  shows "expect c (skip_spaces (w @ c # t)) = Some t"
  using assms by (simp add: skip_spaces_append skip_spaces_Cons expect_def)

lemma digits1_append:
  assumes "ds \<noteq> []" "list_all is_digit ds" "takeWhile is_digit t = []"
  shows "digits1 (ds @ t) = Some (ds, t)"
proof -
  have all: "\<forall>x\<in>set ds. is_digit x" using assms(2) by (simp add: list_all_iff)
  have "takeWhile is_digit (ds @ t) = ds @ takeWhile is_digit t"
    using all by (simp add: takeWhile_append2)
  moreover have "dropWhile is_digit (ds @ t) = dropWhile is_digit t"
    using all by (simp add: dropWhile_append2)
  moreover have "dropWhile is_digit t = t"
    using assms(3) takeWhile_dropWhile_id[of is_digit t] by simp
  moreover have "is_digit (hd (ds @ t))" using assms(1) all by (cases ds) auto
  ultimately show ?thesis using assms by (simp add: digits1_def)
qed

lemma digits_after_spaces:
  assumes "list_all is_space w" "ds \<noteq> []" "list_all is_digit ds" "takeWhile is_digit t = []"
  shows "digits1 (skip_spaces (w @ ds @ t)) = Some (ds, t)"
proof -
  obtain c cs where ds: "ds = c # cs" using assms(2) by (cases ds) auto
  with assms(3) have "\<not> is_space c" by (simp add: digit_classes)
  then have "skip_spaces (w @ ds @ t) = ds @ t"
    using assms(1) by (simp add: skip_spaces_append skip_spaces_Cons ds)
  then show ?thesis using digits1_append[OF assms(2-4)] by simp
qed

lemma no_digit_spaces:
  assumes "list_all is_space w" "\<not> is_digit c"
  shows "takeWhile is_digit (w @ c # t) = []"
  using assms by (cases w) (auto simp: space_classes)


section \<open>The matchers on well-formed input\<close>

lemma expect_word_append: "expect_word w (w @ t) = Some t"
  by (simp add: expect_word_def)

lemma expect_word_None: "s \<noteq> [] \<Longrightarrow> w \<noteq> [] \<Longrightarrow> hd s \<noteq> hd w \<Longrightarrow> expect_word w s = None"
  by (cases s; cases w) (auto simp: expect_word_def)

lemma digits1_None: "s \<noteq> [] \<Longrightarrow> \<not> is_digit (hd s) \<Longrightarrow> digits1 s = None"
  by (simp add: digits1_def)



lemma opt_char_percent:
  assumes "p = [] \<or> p = ''%''" "list_all is_space w" "c \<noteq> CHR ''%''"
  shows "skip_spaces (opt_char CHR ''%'' (p @ w @ c # t)) = skip_spaces (w @ c # t)"
  using assms by (cases w) (auto simp: opt_char_def space_classes)

lemma no_digit_percent:
  assumes "p = [] \<or> p = ''%''" "list_all is_space w" "\<not> is_digit c"
  shows "takeWhile is_digit (p @ w @ c # t) = []"
  using assms no_digit_spaces[OF assms(2,3), of t] by (auto simp: is_digit_def)

lemma hsl_match_form:
  assumes w: "list_all is_space w1" "list_all is_space w2" "list_all is_space w3"
      "list_all is_space w4" "list_all is_space w5" "list_all is_space w6" "list_all is_space w7"
    and d: "d1 \<noteq> []" "list_all is_digit d1" "d2 \<noteq> []" "list_all is_digit d2"
      "d3 \<noteq> []" "list_all is_digit d3"
    and p: "p1 = [] \<or> p1 = ''%''" "p2 = [] \<or> p2 = ''%''"
  shows "hsl_match (''hsl'' @ w1 @ CHR ''('' # w2 @ d1 @ w3 @ CHR '','' # w4 @ d2 @ p1 @ w5 @
           CHR '','' # w6 @ d3 @ p2 @ w7 @ CHR '')'' # rest) = Some (d1, d2, d3)"
proof -
  have nd: "\<not> is_digit CHR '',''" "\<not> is_digit CHR '')''" "\<not> is_space CHR ''(''"
    "\<not> is_space CHR '',''" "\<not> is_space CHR '')''" "CHR '','' \<noteq> CHR ''%''" "CHR '')'' \<noteq> CHR ''%''"
    by (simp_all add: is_digit_def is_space_def)
  note tw = no_digit_spaces[OF w(3) nd(1)] no_digit_percent[OF p(1) w(5) nd(1)]
    no_digit_percent[OF p(2) w(7) nd(2)]
  show ?thesis
    unfolding hsl_match_def
    by (simp only: expect_word_append expect_after_spaces[OF w(1) nd(3)]
        digits_after_spaces[OF w(2) d(1,2) tw(1)] expect_after_spaces[OF w(3) nd(4)]
        digits_after_spaces[OF w(4) d(3,4) tw(2)]
        opt_char_percent[OF p(1) w(5) nd(6)] expect_after_spaces[OF w(5) nd(4)]
        digits_after_spaces[OF w(6) d(5,6) tw(3)]
        opt_char_percent[OF p(2) w(7) nd(7)] expect_after_spaces[OF w(7) nd(5)]
        bind.bind_lunit prod.case)
qed

section \<open>The hex pattern fails\<close>

lemma hex_match_SomeD:
  assumes "hex_match s = Some g"
  shows "list_all is_hex_lower g" "length g = 3 \<or> length g = 6"
    "set (butlast s) \<subseteq> set g \<union> {CHR ''#''}"
proof -
  define t where "t = (case s of c # cs \<Rightarrow> if c = CHR ''#'' then cs else s | [] \<Rightarrow> s)"
  define g' where "g' = (if t \<noteq> [] \<and> last t = CHR 0x0A then butlast t else t)"
  from assms have g: "g = g'" and ok: "list_all is_hex_lower g'" "length g' = 3 \<or> length g' = 6"
    by (auto simp: hex_match_def Let_def t_def g'_def split: if_splits)
  show "list_all is_hex_lower g" "length g = 3 \<or> length g = 6" using g ok by auto
  have "set (butlast t) \<subseteq> set g'"
    by (auto simp: g'_def dest: in_set_butlastD)
  moreover have "set (butlast s) \<subseteq> set (butlast t) \<union> {CHR ''#''}"
    by (cases s) (auto simp: t_def)
  ultimately show "set (butlast s) \<subseteq> set g \<union> {CHR ''#''}" using g by auto
qed

lemma hex_match_None:
  assumes "c \<in> set (butlast s)" "\<not> is_hex_lower c" "c \<noteq> CHR ''#''"
  shows "hex_match s = None"
proof (cases "hex_match s")
  case None
  then show ?thesis .
next
  case (Some g)
  from hex_match_SomeD[OF Some] assms have "c \<in> set g" "list_all is_hex_lower g" by auto
  with assms(2) show ?thesis by (auto simp: list_all_iff)
qed

section \<open>Normalisation keeps a clean prefix\<close>

lemma strip_prefix_kept:
  assumes "pre \<noteq> []" "\<not> is_space (hd pre)" "\<not> is_space (last pre)"
  shows "py_strip (pre @ rest) = pre @ rev (dropWhile is_space (rev rest))"
proof -
  have 1: "dropWhile is_space (pre @ rest) = pre @ rest"
    using assms(1,2) by (cases pre) auto
  have 2: "dropWhile is_space (rev pre) = rev pre"
    using assms(1,3) by (cases "rev pre") (auto simp: last_rev[symmetric] hd_rev)
  have "dropWhile is_space (rev rest @ rev pre) = dropWhile is_space (rev rest) @ rev pre"
    using 2 by (simp add: dropWhile_append)
  then show ?thesis by (simp add: py_strip_def 1)
qed

lemma rstrip_keeps_head:
  assumes "takeWhile P rest = []"
  shows "takeWhile P (rev (dropWhile Q (rev rest))) = []"
proof (cases "rev (dropWhile Q (rev rest))")
  case Nil
  show ?thesis unfolding Nil by simp
next
  case (Cons x xs)
  have "rev rest = takeWhile Q (rev rest) @ dropWhile Q (rev rest)" by simp
  then have "rev (rev rest) = rev (takeWhile Q (rev rest) @ dropWhile Q (rev rest))"
    by (rule arg_cong)
  then have "rest = rev (dropWhile Q (rev rest)) @ rev (takeWhile Q (rev rest))"
    by (simp only: rev_rev_ident rev_append)
  with Cons have "rest = x # xs @ rev (takeWhile Q (rev rest))" by simp
  with assms have "\<not> P x" by (metis list.distinct(1) takeWhile.simps(2))
  then show ?thesis unfolding Cons by simp
qed

lemma no_digit_lower:
  "takeWhile is_digit u = [] \<Longrightarrow> takeWhile is_digit (py_lower u) = []"
  by (cases u) (auto simp: py_lower_def split: if_splits)

lemma normalise_prefix:
  assumes "pre \<noteq> []" "\<not> is_space (hd pre)" "\<not> is_space (last pre)" "py_lower pre = pre"
  shows "\<exists>rest'. py_lower (py_strip (pre @ rest)) = pre @ rest'
           \<and> (takeWhile is_digit rest = [] \<longrightarrow> takeWhile is_digit rest' = [])"
proof -
  let ?r = "rev (dropWhile is_space (rev rest))"
  have "py_lower (py_strip (pre @ rest)) = pre @ py_lower ?r"
    using strip_prefix_kept[OF assms(1-3)] assms(4) by (simp add: py_lower_append)
  moreover have "takeWhile is_digit (py_lower ?r) = []" if "takeWhile is_digit rest = []"
  proof -
    from rstrip_keeps_head[OF that] have "takeWhile is_digit ?r = []" .
    then show ?thesis by (rule no_digit_lower)
  qed
  ultimately show ?thesis by blast
qed

section \<open>Detection of the three unanchored forms\<close>

lemma lower_literals:
  "py_lower ''rgb'' = ''rgb''" "py_lower ''hsl'' = ''hsl''" "py_lower ''('' = ''(''"
  "py_lower '','' = '',''" "py_lower '')'' = '')''" "py_lower ''%'' = ''%''" "py_lower [] = []"
  by (simp_all add: py_lower_def lower_char_def)

lemma lower_percent: "p = [] \<or> p = ''%'' \<Longrightarrow> py_lower p = p"
  by (auto simp: lower_literals)



lemma parse_color_hsl_form:
  assumes w: "list_all is_space w1" "list_all is_space w2" "list_all is_space w3"
      "list_all is_space w4" "list_all is_space w5" "list_all is_space w6" "list_all is_space w7"
    and d: "d1 \<noteq> []" "list_all is_digit d1" "d2 \<noteq> []" "list_all is_digit d2"
      "d3 \<noteq> []" "list_all is_digit d3"
    and p: "p1 = [] \<or> p1 = ''%''" "p2 = [] \<or> p2 = ''%''"
  shows "parse_color (''hsl'' @ w1 @ ''('' @ w2 @ d1 @ w3 @ '','' @ w4 @ d2 @ p1 @ w5 @ '','' @ w6
           @ d3 @ p2 @ w7 @ '')'' @ rest)
         = ebind (hsl_to_rgb_tuple (int (digits_value d1)) (int (digits_value d2))
                    (int (digits_value d3)))
             (\<lambda>(r, g, b). Inr (Some (''hsl'', r, g, b)))"
proof -
  define pre where "pre = ''hsl'' @ w1 @ ''('' @ w2 @ d1 @ w3 @ '','' @ w4 @ d2 @ p1 @ w5 @ '',''
    @ w6 @ d3 @ p2 @ w7 @ '')''"
  have pre: "pre \<noteq> []" "\<not> is_space (hd pre)" "\<not> is_space (last pre)"
    by (simp_all add: pre_def is_space_def)
  have low: "py_lower pre = pre"
    using w d p
    by (simp add: pre_def py_lower_def py_lower_spaces[unfolded py_lower_def]
        py_lower_digits[unfolded py_lower_def] lower_percent[unfolded py_lower_def]
        lower_char_def)
  from normalise_prefix[OF pre low, of rest] obtain rest' where
    n: "py_lower (py_strip (pre @ rest)) = pre @ rest'" by blast
  have form: "pre @ rest' = ''hsl'' @ w1 @ CHR ''('' # w2 @ d1 @ w3 @ CHR '','' # w4 @ d2 @ p1 @ w5
      @ CHR '','' # w6 @ d3 @ p2 @ w7 @ CHR '')'' # rest'"
    by (simp add: pre_def)
  have hex: "hex_match (pre @ rest') = None"
  proof (rule hex_match_None)
    show "CHR ''h'' \<in> set (butlast (pre @ rest'))" by (simp add: pre_def butlast_append)
    show "\<not> is_hex_lower CHR ''h''" by (simp add: is_hex_lower_def)
    show "CHR ''h'' \<noteq> CHR ''#''" by simp
  qed
  have rgb: "rgb_match (pre @ rest') = None"
    by (simp add: rgb_match_def pre_def expect_word_def)
  have comma: "comma_match (pre @ rest') = None"
    by (simp add: comma_match_def pre_def digits1_def is_digit_def)
  have m: "hsl_match (pre @ rest') = Some (d1, d2, d3)"
    unfolding form by (rule hsl_match_form[OF w d p])
  have "parse_color (pre @ rest)
         = ebind (hsl_to_rgb_tuple (int (digits_value d1)) (int (digits_value d2))
                    (int (digits_value d3)))
             (\<lambda>(r, g, b). Inr (Some (''hsl'', r, g, b)))"
    by (simp add: parse_color_def n hex rgb comma m ints3_digits[OF d] ebind_def)
  then show ?thesis by (simp add: pre_def)
qed




section \<open>Groups captured by the patterns\<close>







section \<open>Rounding to binary64\<close>

lemma pow2_powi: "pow2 k = 2 powi k"
  by (simp add: pow2_def power_int_def field_simps)

lemma pow2_pos [simp]: "0 < pow2 k"
  by (simp add: pow2_powi)

lemma pow2_nonzero [simp]: "pow2 k \<noteq> 0"
  using pow2_pos[of k] by (simp del: pow2_pos)

lemma pow2_add: "pow2 (a + b) = pow2 a * pow2 b"
  by (simp add: pow2_powi power_int_add)

lemma pow2_mono: "a \<le> b \<Longrightarrow> pow2 a \<le> pow2 b"
  by (simp add: pow2_powi power_int_increasing)

lemma pow2_strict_mono: "a < b \<Longrightarrow> pow2 a < pow2 b"
  by (simp add: pow2_powi power_int_strict_increasing)

lemma pow2_nat: "0 \<le> k \<Longrightarrow> pow2 k = 2 ^ nat k"
  by (simp add: pow2_def)

lemma ilog2_bounds:
  assumes "0 < x"
  shows "pow2 (ilog2 x) \<le> x \<and> x < pow2 (ilog2 x + 1)"
proof (cases "1 \<le> x")
  case True
  define n where "n = \<lfloor>x\<rfloor>"
  have n1: "1 \<le> n" using True by (simp add: n_def le_floor_iff)
  then have n0: "0 < n" by simp
  have bl: "1 \<le> bitlen n" using n0 by (simp add: bitlen_alt_def)
  from bitlen_bounds[OF n0] have lo: "2 ^ nat (bitlen n - 1) \<le> n" and hi: "n < 2 ^ nat (bitlen n)"
    by auto
  have "pow2 (bitlen n - 1) = of_int (2 ^ nat (bitlen n - 1))"
    using bl by (simp add: pow2_nat)
  also have "\<dots> \<le> of_int n" using lo by (simp only: of_int_le_iff)
  also have "\<dots> \<le> x" by (simp add: n_def)
  finally have 1: "pow2 (bitlen n - 1) \<le> x" .
  from hi have "n + 1 \<le> 2 ^ nat (bitlen n)" by simp
  then have "(of_int (n + 1) :: rat) \<le> of_int (2 ^ nat (bitlen n))" by (simp only: of_int_le_iff)
  moreover have "x < of_int (n + 1)" unfolding n_def by simp linarith
  ultimately have "x < of_int (2 ^ nat (bitlen n))" by (rule less_le_trans[rotated])
  then have 2: "x < pow2 (bitlen n)" using bl by (simp add: pow2_nat)
  from 1 2 True show ?thesis by (simp add: ilog2_def n_def)
next
  case False
  then have x1: "x < 1" by simp
  define n where "n = \<lceil>1 / x\<rceil>"
  have "1 < 1 / x" using assms x1 by (simp add: field_simps)
  then have n2: "2 \<le> n" unfolding n_def by (simp add: le_ceiling_iff)
  then have n0: "0 < n - 1" by simp
  define k where "k = bitlen (n - 1)"
  have k1: "1 \<le> k" using n0 by (simp add: k_def bitlen_alt_def)
  from bitlen_bounds[OF n0] have lo: "2 ^ nat (k - 1) \<le> n - 1" and hi: "n - 1 < 2 ^ nat k"
    by (auto simp: k_def)
  from hi have "n \<le> 2 ^ nat k" by simp
  then have "(of_int n :: rat) \<le> of_int (2 ^ nat k)" by (simp only: of_int_le_iff)
  then have "(of_int n :: rat) \<le> 2 ^ nat k" by simp
  moreover have "1 / x \<le> of_int n" by (simp add: n_def)
  ultimately have "1 / x \<le> 2 ^ nat k" by (rule order_trans[rotated])
  then have "1 \<le> 2 ^ nat k * x" using assms by (simp add: field_simps)
  then have 1: "pow2 (- k) \<le> x" using k1 by (simp add: pow2_def field_simps)
  have "of_int (n - 1) < 1 / x" unfolding n_def by simp linarith
  moreover have "(of_int (2 ^ nat (k - 1)) :: rat) \<le> of_int (n - 1)" using lo by (simp only: of_int_le_iff)
  then have "(2 :: rat) ^ nat (k - 1) \<le> of_int (n - 1)" by simp
  ultimately have "2 ^ nat (k - 1) < 1 / x" by (rule le_less_trans[rotated])
  then have "2 ^ nat (k - 1) * x < 1" using assms by (simp add: field_simps)
  then have 2: "x < pow2 (- k + 1)"
  proof (cases "k = 1")
    case True
    with x1 show ?thesis by (simp add: pow2_def)
  next
    case False
    with k1 have "- k + 1 < 0" by simp
    moreover have "nat (- (- k + 1)) = nat (k - 1)" by simp
    ultimately show ?thesis using \<open>2 ^ nat (k - 1) * x < 1\<close>
      by (simp add: pow2_def field_simps)
  qed
  from 1 2 False show ?thesis by (simp add: ilog2_def n_def k_def)
qed

lemma ilog2_unique:
  assumes "pow2 e \<le> x" "x < pow2 (e + 1)"
  shows "ilog2 x = e"
proof -
  have x0: "0 < x" by (rule less_le_trans[OF pow2_pos assms(1)])
  from ilog2_bounds[OF x0] have b: "pow2 (ilog2 x) \<le> x" "x < pow2 (ilog2 x + 1)" by auto
  have "\<not> ilog2 x < e"
  proof
    assume "ilog2 x < e"
    then have "pow2 (ilog2 x + 1) \<le> pow2 e" by (intro pow2_mono) simp
    with b(2) assms(1) show False by simp
  qed
  moreover have "\<not> e < ilog2 x"
  proof
    assume "e < ilog2 x"
    then have "pow2 (e + 1) \<le> pow2 (ilog2 x)" by (intro pow2_mono) simp
    with b(1) assms(2) show False by simp
  qed
  ultimately show ?thesis by simp
qed

lemma rne_near:
  assumes "\<bar>y - of_int m\<bar> < 1 / 2"
  shows "rne y = m"
proof -
  consider "of_int m \<le> y" | "y < of_int m" by linarith
  then show ?thesis
  proof cases
    case 1
    with assms have "\<lfloor>y\<rfloor> = m" by (intro floor_unique) auto
    with assms 1 show ?thesis by (simp add: rne_def Let_def)
  next
    case 2
    with assms have f: "\<lfloor>y\<rfloor> = m - 1" by (intro floor_unique) auto
    with assms 2 show ?thesis by (auto simp: rne_def Let_def)
  qed
qed

lemma rne_tie:
  assumes "y = of_int f + 1 / 2"
  shows "rne y = (if even f then f else f + 1)"
proof -
  have "\<lfloor>y\<rfloor> = f" using assms by (intro floor_unique) auto
  with assms show ?thesis by (simp add: rne_def Let_def)
qed

lemma rnd_cert:
  assumes "pow2 e \<le> \<bar>x\<bar>" "\<bar>x\<bar> < pow2 (e + 1)" "q = max (e - 52) (- 1074)"
    "rne (x / pow2 q) = m"
  shows "rnd x = of_int m * pow2 q"
proof -
  have "0 < \<bar>x\<bar>" by (rule less_le_trans[OF pow2_pos assms(1)])
  then have "x \<noteq> 0" by simp
  moreover have "quantum x = q" using ilog2_unique[OF assms(1,2)] assms(3) by (simp add: quantum_def)
  ultimately show ?thesis using assms(4) by (simp add: rnd_def)
qed

lemma rnd_exact:
  assumes "pow2 e \<le> \<bar>x\<bar>" "\<bar>x\<bar> < pow2 (e + 1)" "q = max (e - 52) (- 1074)"
    "x = of_int m * pow2 q"
  shows "rnd x = x"
proof -
  have "x / pow2 q = of_int m" using assms(4) by simp
  then have "rne (x / pow2 q) = m" by (simp add: rne_near)
  from rnd_cert[OF assms(1-3) this] assms(4) show ?thesis by simp
qed


lemma fround_Fin:
  assumes "rnd x = y" "y < 2 ^ 1024" "- (2 ^ 1024) < y"
  shows "fround x = Fin y"
  using assms by (simp add: fround_def Let_def)

lemma fround_PInf:
  assumes "rnd x = y" "2 ^ 1024 \<le> y"
  shows "fround x = PInf"
  using assms by (simp add: fround_def Let_def)

lemma fadd_Fin: "fadd (Fin a) (Fin b) = fround (a + b)"
  by simp

lemma fsub_Fin: "fsub (Fin a) (Fin b) = fround (a - b)"
  by (simp add: fsub_def)

lemma fmul_Fin: "fmul (Fin a) (Fin b) = fround (a * b)"
  by simp

lemma fdiv_Fin: "b \<noteq> 0 \<Longrightarrow> fdiv (Fin a) (Fin b) = Inr (fround (a / b))"
  by simp

lemma fmod_one_nonneg:
  assumes "0 \<le> a" "of_int k \<le> a" "a < of_int k + 1"
  shows "fmod_one (Fin a) = Fin (a - of_int k)"
proof -
  have "\<lfloor>a\<rfloor> = k" using assms by (intro floor_unique) auto
  with assms show ?thesis by (simp add: Let_def)
qed

lemma fmod_one_neg:
  assumes "a < 0" "of_int k - 1 < a" "a < of_int k"
  shows "fmod_one (Fin a) = fround (a - of_int k + 1)"
proof -
  have "\<lceil>a\<rceil> = k" using assms by (intro ceiling_unique) auto
  with assms show ?thesis by (simp add: Let_def)
qed


lemma int_of_float_nonneg:
  assumes "0 \<le> a" "of_int k \<le> a" "a < of_int k + 1"
  shows "int_of_float (Fin a) = Inr k"
proof -
  have "\<lfloor>a\<rfloor> = k" using assms by (intro floor_unique) auto
  with assms show ?thesis by simp
qed

lemma int_of_float_neg:
  assumes "a < 0" "of_int k - 1 < a" "a \<le> of_int k"
  shows "int_of_float (Fin a) = Inr k"
proof -
  have "\<lceil>a\<rceil> = k" using assms by (intro ceiling_unique) auto
  with assms show ?thesis by simp
qed

section \<open>Normalisation of the input\<close>

lemma is_space_lower_char [simp]: "is_space (lower_char c) = is_space c"
  by (auto simp: is_space_def lower_char_def Let_def)

lemma lower_char_idem [simp]: "lower_char (lower_char c) = lower_char c"
  by (auto simp: lower_char_def Let_def)

lemma py_lower_idem: "py_lower (py_lower s) = py_lower s"
  by (simp add: py_lower_def)

lemma py_strip_lower: "py_strip (py_lower s) = py_lower (py_strip s)"
  by (simp add: py_strip_def py_lower_def dropWhile_map rev_map comp_def)

lemma dropWhile_rev_stable:
  assumes "t = [] \<or> \<not> P (hd t)"
  shows "dropWhile P (rev (dropWhile P (rev t))) = rev (dropWhile P (rev t))"
proof -
  define u where "u = dropWhile P (rev t)"
  have "rev t = takeWhile P (rev t) @ u" by (simp add: u_def)
  then have "rev (rev t) = rev (takeWhile P (rev t) @ u)" by (rule arg_cong)
  then have t: "t = rev u @ rev (takeWhile P (rev t))" by simp
  have "dropWhile P (rev u) = rev u"
  proof (cases "rev u")
    case Nil
    show ?thesis unfolding Nil by simp
  next
    case (Cons x xs)
    with t have "t \<noteq> []" "hd t = x"
      by (metis append_is_Nil_conv list.distinct(1), metis hd_append2 list.distinct(1) list.sel(1))
    with assms have "\<not> P x" by auto
    then show ?thesis unfolding Cons by simp
  qed
  then show ?thesis unfolding u_def .
qed

lemma dropWhile_rev_dropWhile:
  "dropWhile P (rev (dropWhile P (rev (dropWhile P s)))) = rev (dropWhile P (rev (dropWhile P s)))"
proof (rule dropWhile_rev_stable)
  show "dropWhile P s = [] \<or> \<not> P (hd (dropWhile P s))"
    using hd_dropWhile[of P s] by blast
qed

lemma py_strip_idem: "py_strip (py_strip s) = py_strip s"
  by (simp add: py_strip_def dropWhile_rev_dropWhile dropWhile_idem)

lemma normalise_idem: "py_lower (py_strip (py_lower (py_strip s))) = py_lower (py_strip s)"
  by (simp add: py_strip_lower py_strip_idem py_lower_idem)


lemma parse_color_examples:
  "parse_color ''  #FF5733 '' = Inr (Some (''hex'', 255, 87, 51))"
  "parse_color ''#ff5733'' = Inr (Some (''hex'', 255, 87, 51))"
  "parse_color ''RGB(1,2,3)'' = Inr (Some (''rgb'', 1, 2, 3))"
  "parse_color ''rgb(1,2,3)'' = Inr (Some (''rgb'', 1, 2, 3))"
  by code_simp+

text \<open>
  Claim C10. \<open>parse_color\<close> normalises its own input: its result on any string is its
  result on the string stripped of surrounding white space and lower-cased, so that upper
  case and padded inputs are recognised as their trimmed lower-case forms are.
\<close>

theorem parse_color_normalises:
  "parse_color s = parse_color (py_lower (py_strip s))
   \<and> parse_color ''  #FF5733 '' = parse_color ''#ff5733''
   \<and> parse_color ''#ff5733'' = Inr (Some (''hex'', 255, 87, 51))
   \<and> parse_color ''RGB(1,2,3)'' = parse_color ''rgb(1,2,3)''
   \<and> parse_color ''rgb(1,2,3)'' = Inr (Some (''rgb'', 1, 2, 3))"
  by (simp add: parse_color_def normalise_idem parse_color_examples[unfolded parse_color_def])

section \<open>The order of detection\<close>






section \<open>The example hsl(9, 100%, 60%)\<close>

lemma hsl9_1: "float_of_int (9) = Inr (Fin 9)"
proof -
  have a: "pow2 (3) \<le> \<bar>of_int (9)\<bar>" by (simp add: pow2_def)
  have b: "\<bar>of_int (9)\<bar> < pow2 (3 + 1)" by (simp add: pow2_def)
  have c: "(- 49 :: int) = max (3 - 52) (- 1074)" by simp
  have "\<bar>(of_int (9)) / pow2 (- 49) - of_int (5066549580791808)\<bar> < 1 / 2" by (simp add: pow2_def)
  then have d: "rne ((of_int (9)) / pow2 (- 49)) = 5066549580791808" by (rule rne_near)
  have "rnd (of_int (9)) = of_int (5066549580791808) * pow2 (- 49)" by (rule rnd_cert[OF a b c d])
  also have "\<dots> = 9" by (simp add: pow2_def)
  finally have r: "rnd (of_int (9)) = 9" .
  have f: "fround (of_int (9)) = Fin 9" by (rule fround_Fin[OF r]) simp_all
  show ?thesis by (simp only: float_of_int_def f fl.case)
qed

lemma hsl9_2: "fdiv (Fin 9) (Fin 360) = Inr (Fin (3602879701896397 / 144115188075855872))"
proof -
  have a: "pow2 (- 6) \<le> \<bar>9 / 360\<bar>" by (simp add: pow2_def)
  have b: "\<bar>9 / 360\<bar> < pow2 (- 6 + 1)" by (simp add: pow2_def)
  have c: "(- 58 :: int) = max (- 6 - 52) (- 1074)" by simp
  have "\<bar>(9 / 360) / pow2 (- 58) - of_int (7205759403792794)\<bar> < 1 / 2" by (simp add: pow2_def)
  then have d: "rne ((9 / 360) / pow2 (- 58)) = 7205759403792794" by (rule rne_near)
  have "rnd (9 / 360) = of_int (7205759403792794) * pow2 (- 58)" by (rule rnd_cert[OF a b c d])
  also have "\<dots> = 3602879701896397 / 144115188075855872" by (simp add: pow2_def)
  finally have r: "rnd (9 / 360) = 3602879701896397 / 144115188075855872" .
  have f: "fround (9 / 360) = Fin (3602879701896397 / 144115188075855872)" by (rule fround_Fin[OF r]) simp_all
  have nz: "(360 :: rat) \<noteq> 0" by simp
  show ?thesis by (simp only: fdiv_Fin[OF nz] f)
qed

lemma hsl9_3: "float_of_int (100) = Inr (Fin 100)"
proof -
  have a: "pow2 (6) \<le> \<bar>of_int (100)\<bar>" by (simp add: pow2_def)
  have b: "\<bar>of_int (100)\<bar> < pow2 (6 + 1)" by (simp add: pow2_def)
  have c: "(- 46 :: int) = max (6 - 52) (- 1074)" by simp
  have "\<bar>(of_int (100)) / pow2 (- 46) - of_int (7036874417766400)\<bar> < 1 / 2" by (simp add: pow2_def)
  then have d: "rne ((of_int (100)) / pow2 (- 46)) = 7036874417766400" by (rule rne_near)
  have "rnd (of_int (100)) = of_int (7036874417766400) * pow2 (- 46)" by (rule rnd_cert[OF a b c d])
  also have "\<dots> = 100" by (simp add: pow2_def)
  finally have r: "rnd (of_int (100)) = 100" .
  have f: "fround (of_int (100)) = Fin 100" by (rule fround_Fin[OF r]) simp_all
  show ?thesis by (simp only: float_of_int_def f fl.case)
qed

lemma hsl9_4: "fdiv (Fin 100) (Fin 100) = Inr (Fin 1)"
proof -
  have a: "pow2 (0) \<le> \<bar>100 / 100\<bar>" by (simp add: pow2_def)
  have b: "\<bar>100 / 100\<bar> < pow2 (0 + 1)" by (simp add: pow2_def)
  have c: "(- 52 :: int) = max (0 - 52) (- 1074)" by simp
  have "\<bar>(100 / 100) / pow2 (- 52) - of_int (4503599627370496)\<bar> < 1 / 2" by (simp add: pow2_def)
  then have d: "rne ((100 / 100) / pow2 (- 52)) = 4503599627370496" by (rule rne_near)
  have "rnd (100 / 100) = of_int (4503599627370496) * pow2 (- 52)" by (rule rnd_cert[OF a b c d])
  also have "\<dots> = 1" by (simp add: pow2_def)
  finally have r: "rnd (100 / 100) = 1" .
  have f: "fround (100 / 100) = Fin 1" by (rule fround_Fin[OF r]) simp_all
  have nz: "(100 :: rat) \<noteq> 0" by simp
  show ?thesis by (simp only: fdiv_Fin[OF nz] f)
qed

lemma hsl9_5: "float_of_int (60) = Inr (Fin 60)"
proof -
  have a: "pow2 (5) \<le> \<bar>of_int (60)\<bar>" by (simp add: pow2_def)
  have b: "\<bar>of_int (60)\<bar> < pow2 (5 + 1)" by (simp add: pow2_def)
  have c: "(- 47 :: int) = max (5 - 52) (- 1074)" by simp
  have "\<bar>(of_int (60)) / pow2 (- 47) - of_int (8444249301319680)\<bar> < 1 / 2" by (simp add: pow2_def)
  then have d: "rne ((of_int (60)) / pow2 (- 47)) = 8444249301319680" by (rule rne_near)
  have "rnd (of_int (60)) = of_int (8444249301319680) * pow2 (- 47)" by (rule rnd_cert[OF a b c d])
  also have "\<dots> = 60" by (simp add: pow2_def)
  finally have r: "rnd (of_int (60)) = 60" .
  have f: "fround (of_int (60)) = Fin 60" by (rule fround_Fin[OF r]) simp_all
  show ?thesis by (simp only: float_of_int_def f fl.case)
qed

lemma hsl9_6: "fdiv (Fin 60) (Fin 100) = Inr (Fin (5404319552844595 / 9007199254740992))"
proof -
  have a: "pow2 (- 1) \<le> \<bar>60 / 100\<bar>" by (simp add: pow2_def)
  have b: "\<bar>60 / 100\<bar> < pow2 (- 1 + 1)" by (simp add: pow2_def)
  have c: "(- 53 :: int) = max (- 1 - 52) (- 1074)" by simp
  have "\<bar>(60 / 100) / pow2 (- 53) - of_int (5404319552844595)\<bar> < 1 / 2" by (simp add: pow2_def)
  then have d: "rne ((60 / 100) / pow2 (- 53)) = 5404319552844595" by (rule rne_near)
  have "rnd (60 / 100) = of_int (5404319552844595) * pow2 (- 53)" by (rule rnd_cert[OF a b c d])
  also have "\<dots> = 5404319552844595 / 9007199254740992" by (simp add: pow2_def)
  finally have r: "rnd (60 / 100) = 5404319552844595 / 9007199254740992" .
  have f: "fround (60 / 100) = Fin (5404319552844595 / 9007199254740992)" by (rule fround_Fin[OF r]) simp_all
  have nz: "(100 :: rat) \<noteq> 0" by simp
  show ?thesis by (simp only: fdiv_Fin[OF nz] f)
qed

lemma hsl9_7: "fadd (Fin (5404319552844595 / 9007199254740992)) (Fin 1) = Fin (3602879701896397 / 2251799813685248)"
proof -
  have a: "pow2 (0) \<le> \<bar>(5404319552844595 / 9007199254740992) + 1\<bar>" by (simp add: pow2_def)
  have b: "\<bar>(5404319552844595 / 9007199254740992) + 1\<bar> < pow2 (0 + 1)" by (simp add: pow2_def)
  have c: "(- 52 :: int) = max (0 - 52) (- 1074)" by simp
  have "((5404319552844595 / 9007199254740992) + 1) / pow2 (- 52) = of_int (7205759403792793) + 1 / 2" by (simp add: pow2_def)
  from rne_tie[OF this] have d: "rne (((5404319552844595 / 9007199254740992) + 1) / pow2 (- 52)) = 7205759403792794" by simp
  have "rnd ((5404319552844595 / 9007199254740992) + 1) = of_int (7205759403792794) * pow2 (- 52)" by (rule rnd_cert[OF a b c d])
  also have "\<dots> = 3602879701896397 / 2251799813685248" by (simp add: pow2_def)
  finally have r: "rnd ((5404319552844595 / 9007199254740992) + 1) = 3602879701896397 / 2251799813685248" .
  have f: "fround ((5404319552844595 / 9007199254740992) + 1) = Fin (3602879701896397 / 2251799813685248)" by (rule fround_Fin[OF r]) simp_all
  show ?thesis by (simp only: fadd_Fin f)
qed

lemma hsl9_8: "fmul (Fin (5404319552844595 / 9007199254740992)) (Fin 1) = Fin (5404319552844595 / 9007199254740992)"
proof -
  have a: "pow2 (- 1) \<le> \<bar>(5404319552844595 / 9007199254740992) * 1\<bar>" by (simp add: pow2_def)
  have b: "\<bar>(5404319552844595 / 9007199254740992) * 1\<bar> < pow2 (- 1 + 1)" by (simp add: pow2_def)
  have c: "(- 53 :: int) = max (- 1 - 52) (- 1074)" by simp
  have "\<bar>((5404319552844595 / 9007199254740992) * 1) / pow2 (- 53) - of_int (5404319552844595)\<bar> < 1 / 2" by (simp add: pow2_def)
  then have d: "rne (((5404319552844595 / 9007199254740992) * 1) / pow2 (- 53)) = 5404319552844595" by (rule rne_near)
  have "rnd ((5404319552844595 / 9007199254740992) * 1) = of_int (5404319552844595) * pow2 (- 53)" by (rule rnd_cert[OF a b c d])
  also have "\<dots> = 5404319552844595 / 9007199254740992" by (simp add: pow2_def)
  finally have r: "rnd ((5404319552844595 / 9007199254740992) * 1) = 5404319552844595 / 9007199254740992" .
  have f: "fround ((5404319552844595 / 9007199254740992) * 1) = Fin (5404319552844595 / 9007199254740992)" by (rule fround_Fin[OF r]) simp_all
  show ?thesis by (simp only: fmul_Fin f)
qed

lemma hsl9_9: "fsub (Fin (3602879701896397 / 2251799813685248)) (Fin (5404319552844595 / 9007199254740992)) = Fin 1"
proof -
  have a: "pow2 (0) \<le> \<bar>(3602879701896397 / 2251799813685248) - (5404319552844595 / 9007199254740992)\<bar>" by (simp add: pow2_def)
  have b: "\<bar>(3602879701896397 / 2251799813685248) - (5404319552844595 / 9007199254740992)\<bar> < pow2 (0 + 1)" by (simp add: pow2_def)
  have c: "(- 52 :: int) = max (0 - 52) (- 1074)" by simp
  have "((3602879701896397 / 2251799813685248) - (5404319552844595 / 9007199254740992)) / pow2 (- 52) = of_int (4503599627370496) + 1 / 2" by (simp add: pow2_def)
  from rne_tie[OF this] have d: "rne (((3602879701896397 / 2251799813685248) - (5404319552844595 / 9007199254740992)) / pow2 (- 52)) = 4503599627370496" by simp
  have "rnd ((3602879701896397 / 2251799813685248) - (5404319552844595 / 9007199254740992)) = of_int (4503599627370496) * pow2 (- 52)" by (rule rnd_cert[OF a b c d])
  also have "\<dots> = 1" by (simp add: pow2_def)
  finally have r: "rnd ((3602879701896397 / 2251799813685248) - (5404319552844595 / 9007199254740992)) = 1" .
  have f: "fround ((3602879701896397 / 2251799813685248) - (5404319552844595 / 9007199254740992)) = Fin 1" by (rule fround_Fin[OF r]) simp_all
  show ?thesis by (simp only: fsub_Fin f)
qed

lemma hsl9_10: "fmul (Fin 2) (Fin (5404319552844595 / 9007199254740992)) = Fin (5404319552844595 / 4503599627370496)"
proof -
  have a: "pow2 (0) \<le> \<bar>2 * (5404319552844595 / 9007199254740992)\<bar>" by (simp add: pow2_def)
  have b: "\<bar>2 * (5404319552844595 / 9007199254740992)\<bar> < pow2 (0 + 1)" by (simp add: pow2_def)
  have c: "(- 52 :: int) = max (0 - 52) (- 1074)" by simp
  have "\<bar>(2 * (5404319552844595 / 9007199254740992)) / pow2 (- 52) - of_int (5404319552844595)\<bar> < 1 / 2" by (simp add: pow2_def)
  then have d: "rne ((2 * (5404319552844595 / 9007199254740992)) / pow2 (- 52)) = 5404319552844595" by (rule rne_near)
  have "rnd (2 * (5404319552844595 / 9007199254740992)) = of_int (5404319552844595) * pow2 (- 52)" by (rule rnd_cert[OF a b c d])
  also have "\<dots> = 5404319552844595 / 4503599627370496" by (simp add: pow2_def)
  finally have r: "rnd (2 * (5404319552844595 / 9007199254740992)) = 5404319552844595 / 4503599627370496" .
  have f: "fround (2 * (5404319552844595 / 9007199254740992)) = Fin (5404319552844595 / 4503599627370496)" by (rule fround_Fin[OF r]) simp_all
  show ?thesis by (simp only: fmul_Fin f)
qed

lemma hsl9_11: "fsub (Fin (5404319552844595 / 4503599627370496)) (Fin 1) = Fin (900719925474099 / 4503599627370496)"
proof -
  have a: "pow2 (- 3) \<le> \<bar>(5404319552844595 / 4503599627370496) - 1\<bar>" by (simp add: pow2_def)
  have b: "\<bar>(5404319552844595 / 4503599627370496) - 1\<bar> < pow2 (- 3 + 1)" by (simp add: pow2_def)
  have c: "(- 55 :: int) = max (- 3 - 52) (- 1074)" by simp
  have "\<bar>((5404319552844595 / 4503599627370496) - 1) / pow2 (- 55) - of_int (7205759403792792)\<bar> < 1 / 2" by (simp add: pow2_def)
  then have d: "rne (((5404319552844595 / 4503599627370496) - 1) / pow2 (- 55)) = 7205759403792792" by (rule rne_near)
  have "rnd ((5404319552844595 / 4503599627370496) - 1) = of_int (7205759403792792) * pow2 (- 55)" by (rule rnd_cert[OF a b c d])
  also have "\<dots> = 900719925474099 / 4503599627370496" by (simp add: pow2_def)
  finally have r: "rnd ((5404319552844595 / 4503599627370496) - 1) = 900719925474099 / 4503599627370496" .
  have f: "fround ((5404319552844595 / 4503599627370496) - 1) = Fin (900719925474099 / 4503599627370496)" by (rule fround_Fin[OF r]) simp_all
  show ?thesis by (simp only: fsub_Fin f)
qed

lemma hsl9_12: "ONE_THIRD = Fin (6004799503160661 / 18014398509481984)"
proof -
  have a: "pow2 (- 2) \<le> \<bar>1 / 3\<bar>" by (simp add: pow2_def)
  have b: "\<bar>1 / 3\<bar> < pow2 (- 2 + 1)" by (simp add: pow2_def)
  have c: "(- 54 :: int) = max (- 2 - 52) (- 1074)" by simp
  have "\<bar>(1 / 3) / pow2 (- 54) - of_int (6004799503160661)\<bar> < 1 / 2" by (simp add: pow2_def)
  then have d: "rne ((1 / 3) / pow2 (- 54)) = 6004799503160661" by (rule rne_near)
  have "rnd (1 / 3) = of_int (6004799503160661) * pow2 (- 54)" by (rule rnd_cert[OF a b c d])
  also have "\<dots> = 6004799503160661 / 18014398509481984" by (simp add: pow2_def)
  finally have r: "rnd (1 / 3) = 6004799503160661 / 18014398509481984" .
  have f: "fround (1 / 3) = Fin (6004799503160661 / 18014398509481984)" by (rule fround_Fin[OF r]) simp_all
  show ?thesis by (simp only: ONE_THIRD_def f)
qed

lemma hsl9_13: "fadd (Fin (3602879701896397 / 144115188075855872)) (Fin (6004799503160661 / 18014398509481984)) = Fin (6455159465897711 / 18014398509481984)"
proof -
  have a: "pow2 (- 2) \<le> \<bar>(3602879701896397 / 144115188075855872) + (6004799503160661 / 18014398509481984)\<bar>" by (simp add: pow2_def)
  have b: "\<bar>(3602879701896397 / 144115188075855872) + (6004799503160661 / 18014398509481984)\<bar> < pow2 (- 2 + 1)" by (simp add: pow2_def)
  have c: "(- 54 :: int) = max (- 2 - 52) (- 1074)" by simp
  have "\<bar>((3602879701896397 / 144115188075855872) + (6004799503160661 / 18014398509481984)) / pow2 (- 54) - of_int (6455159465897711)\<bar> < 1 / 2" by (simp add: pow2_def)
  then have d: "rne (((3602879701896397 / 144115188075855872) + (6004799503160661 / 18014398509481984)) / pow2 (- 54)) = 6455159465897711" by (rule rne_near)
  have "rnd ((3602879701896397 / 144115188075855872) + (6004799503160661 / 18014398509481984)) = of_int (6455159465897711) * pow2 (- 54)" by (rule rnd_cert[OF a b c d])
  also have "\<dots> = 6455159465897711 / 18014398509481984" by (simp add: pow2_def)
  finally have r: "rnd ((3602879701896397 / 144115188075855872) + (6004799503160661 / 18014398509481984)) = 6455159465897711 / 18014398509481984" .
  have f: "fround ((3602879701896397 / 144115188075855872) + (6004799503160661 / 18014398509481984)) = Fin (6455159465897711 / 18014398509481984)" by (rule fround_Fin[OF r]) simp_all
  show ?thesis by (simp only: fadd_Fin f)
qed

lemma hsl9_14: "fmod_one (Fin (6455159465897711 / 18014398509481984)) = Fin (6455159465897711 / 18014398509481984)"
proof -
  have m: "fmod_one (Fin (6455159465897711 / 18014398509481984)) = Fin ((6455159465897711 / 18014398509481984) - of_int (0))" by (rule fmod_one_nonneg) simp_all
  have e: "(6455159465897711 / 18014398509481984) - of_int (0) = (6455159465897711 / 18014398509481984 :: rat)" by simp
  show ?thesis by (simp only: m e)
qed

lemma hsl9_15: "ONE_SIXTH = Fin (6004799503160661 / 36028797018963968)"
proof -
  have a: "pow2 (- 3) \<le> \<bar>1 / 6\<bar>" by (simp add: pow2_def)
  have b: "\<bar>1 / 6\<bar> < pow2 (- 3 + 1)" by (simp add: pow2_def)
  have c: "(- 55 :: int) = max (- 3 - 52) (- 1074)" by simp
  have "\<bar>(1 / 6) / pow2 (- 55) - of_int (6004799503160661)\<bar> < 1 / 2" by (simp add: pow2_def)
  then have d: "rne ((1 / 6) / pow2 (- 55)) = 6004799503160661" by (rule rne_near)
  have "rnd (1 / 6) = of_int (6004799503160661) * pow2 (- 55)" by (rule rnd_cert[OF a b c d])
  also have "\<dots> = 6004799503160661 / 36028797018963968" by (simp add: pow2_def)
  finally have r: "rnd (1 / 6) = 6004799503160661 / 36028797018963968" .
  have f: "fround (1 / 6) = Fin (6004799503160661 / 36028797018963968)" by (rule fround_Fin[OF r]) simp_all
  show ?thesis by (simp only: ONE_SIXTH_def f)
qed

lemma hsl9_16: "TWO_THIRD = Fin (6004799503160661 / 9007199254740992)"
proof -
  have a: "pow2 (- 1) \<le> \<bar>2 / 3\<bar>" by (simp add: pow2_def)
  have b: "\<bar>2 / 3\<bar> < pow2 (- 1 + 1)" by (simp add: pow2_def)
  have c: "(- 53 :: int) = max (- 1 - 52) (- 1074)" by simp
  have "\<bar>(2 / 3) / pow2 (- 53) - of_int (6004799503160661)\<bar> < 1 / 2" by (simp add: pow2_def)
  then have d: "rne ((2 / 3) / pow2 (- 53)) = 6004799503160661" by (rule rne_near)
  have "rnd (2 / 3) = of_int (6004799503160661) * pow2 (- 53)" by (rule rnd_cert[OF a b c d])
  also have "\<dots> = 6004799503160661 / 9007199254740992" by (simp add: pow2_def)
  finally have r: "rnd (2 / 3) = 6004799503160661 / 9007199254740992" .
  have f: "fround (2 / 3) = Fin (6004799503160661 / 9007199254740992)" by (rule fround_Fin[OF r]) simp_all
  show ?thesis by (simp only: TWO_THIRD_def f)
qed

lemma hsl9_17: "fmod_one (Fin (3602879701896397 / 144115188075855872)) = Fin (3602879701896397 / 144115188075855872)"
proof -
  have m: "fmod_one (Fin (3602879701896397 / 144115188075855872)) = Fin ((3602879701896397 / 144115188075855872) - of_int (0))" by (rule fmod_one_nonneg) simp_all
  have e: "(3602879701896397 / 144115188075855872) - of_int (0) = (3602879701896397 / 144115188075855872 :: rat)" by simp
  show ?thesis by (simp only: m e)
qed

lemma hsl9_18: "fsub (Fin 1) (Fin (900719925474099 / 4503599627370496)) = Fin (3602879701896397 / 4503599627370496)"
proof -
  have a: "pow2 (- 1) \<le> \<bar>1 - (900719925474099 / 4503599627370496)\<bar>" by (simp add: pow2_def)
  have b: "\<bar>1 - (900719925474099 / 4503599627370496)\<bar> < pow2 (- 1 + 1)" by (simp add: pow2_def)
  have c: "(- 53 :: int) = max (- 1 - 52) (- 1074)" by simp
  have "\<bar>(1 - (900719925474099 / 4503599627370496)) / pow2 (- 53) - of_int (7205759403792794)\<bar> < 1 / 2" by (simp add: pow2_def)
  then have d: "rne ((1 - (900719925474099 / 4503599627370496)) / pow2 (- 53)) = 7205759403792794" by (rule rne_near)
  have "rnd (1 - (900719925474099 / 4503599627370496)) = of_int (7205759403792794) * pow2 (- 53)" by (rule rnd_cert[OF a b c d])
  also have "\<dots> = 3602879701896397 / 4503599627370496" by (simp add: pow2_def)
  finally have r: "rnd (1 - (900719925474099 / 4503599627370496)) = 3602879701896397 / 4503599627370496" .
  have f: "fround (1 - (900719925474099 / 4503599627370496)) = Fin (3602879701896397 / 4503599627370496)" by (rule fround_Fin[OF r]) simp_all
  show ?thesis by (simp only: fsub_Fin f)
qed

lemma hsl9_19: "fmul (Fin (3602879701896397 / 4503599627370496)) (Fin (3602879701896397 / 144115188075855872)) = Fin (1441151880758559 / 72057594037927936)"
proof -
  have a: "pow2 (- 6) \<le> \<bar>(3602879701896397 / 4503599627370496) * (3602879701896397 / 144115188075855872)\<bar>" by (simp add: pow2_def)
  have b: "\<bar>(3602879701896397 / 4503599627370496) * (3602879701896397 / 144115188075855872)\<bar> < pow2 (- 6 + 1)" by (simp add: pow2_def)
  have c: "(- 58 :: int) = max (- 6 - 52) (- 1074)" by simp
  have "\<bar>((3602879701896397 / 4503599627370496) * (3602879701896397 / 144115188075855872)) / pow2 (- 58) - of_int (5764607523034236)\<bar> < 1 / 2" by (simp add: pow2_def)
  then have d: "rne (((3602879701896397 / 4503599627370496) * (3602879701896397 / 144115188075855872)) / pow2 (- 58)) = 5764607523034236" by (rule rne_near)
  have "rnd ((3602879701896397 / 4503599627370496) * (3602879701896397 / 144115188075855872)) = of_int (5764607523034236) * pow2 (- 58)" by (rule rnd_cert[OF a b c d])
  also have "\<dots> = 1441151880758559 / 72057594037927936" by (simp add: pow2_def)
  finally have r: "rnd ((3602879701896397 / 4503599627370496) * (3602879701896397 / 144115188075855872)) = 1441151880758559 / 72057594037927936" .
  have f: "fround ((3602879701896397 / 4503599627370496) * (3602879701896397 / 144115188075855872)) = Fin (1441151880758559 / 72057594037927936)" by (rule fround_Fin[OF r]) simp_all
  show ?thesis by (simp only: fmul_Fin f)
qed

lemma hsl9_20: "fmul (Fin (1441151880758559 / 72057594037927936)) (Fin 6) = Fin (4323455642275677 / 36028797018963968)"
proof -
  have a: "pow2 (- 4) \<le> \<bar>(1441151880758559 / 72057594037927936) * 6\<bar>" by (simp add: pow2_def)
  have b: "\<bar>(1441151880758559 / 72057594037927936) * 6\<bar> < pow2 (- 4 + 1)" by (simp add: pow2_def)
  have c: "(- 56 :: int) = max (- 4 - 52) (- 1074)" by simp
  have "\<bar>((1441151880758559 / 72057594037927936) * 6) / pow2 (- 56) - of_int (8646911284551354)\<bar> < 1 / 2" by (simp add: pow2_def)
  then have d: "rne (((1441151880758559 / 72057594037927936) * 6) / pow2 (- 56)) = 8646911284551354" by (rule rne_near)
  have "rnd ((1441151880758559 / 72057594037927936) * 6) = of_int (8646911284551354) * pow2 (- 56)" by (rule rnd_cert[OF a b c d])
  also have "\<dots> = 4323455642275677 / 36028797018963968" by (simp add: pow2_def)
  finally have r: "rnd ((1441151880758559 / 72057594037927936) * 6) = 4323455642275677 / 36028797018963968" .
  have f: "fround ((1441151880758559 / 72057594037927936) * 6) = Fin (4323455642275677 / 36028797018963968)" by (rule fround_Fin[OF r]) simp_all
  show ?thesis by (simp only: fmul_Fin f)
qed

lemma hsl9_21: "fadd (Fin (900719925474099 / 4503599627370496)) (Fin (4323455642275677 / 36028797018963968)) = Fin (2882303761517117 / 9007199254740992)"
proof -
  have a: "pow2 (- 2) \<le> \<bar>(900719925474099 / 4503599627370496) + (4323455642275677 / 36028797018963968)\<bar>" by (simp add: pow2_def)
  have b: "\<bar>(900719925474099 / 4503599627370496) + (4323455642275677 / 36028797018963968)\<bar> < pow2 (- 2 + 1)" by (simp add: pow2_def)
  have c: "(- 54 :: int) = max (- 2 - 52) (- 1074)" by simp
  have "((900719925474099 / 4503599627370496) + (4323455642275677 / 36028797018963968)) / pow2 (- 54) = of_int (5764607523034234) + 1 / 2" by (simp add: pow2_def)
  from rne_tie[OF this] have d: "rne (((900719925474099 / 4503599627370496) + (4323455642275677 / 36028797018963968)) / pow2 (- 54)) = 5764607523034234" by simp
  have "rnd ((900719925474099 / 4503599627370496) + (4323455642275677 / 36028797018963968)) = of_int (5764607523034234) * pow2 (- 54)" by (rule rnd_cert[OF a b c d])
  also have "\<dots> = 2882303761517117 / 9007199254740992" by (simp add: pow2_def)
  finally have r: "rnd ((900719925474099 / 4503599627370496) + (4323455642275677 / 36028797018963968)) = 2882303761517117 / 9007199254740992" .
  have f: "fround ((900719925474099 / 4503599627370496) + (4323455642275677 / 36028797018963968)) = Fin (2882303761517117 / 9007199254740992)" by (rule fround_Fin[OF r]) simp_all
  show ?thesis by (simp only: fadd_Fin f)
qed

lemma hsl9_22: "fsub (Fin (3602879701896397 / 144115188075855872)) (Fin (6004799503160661 / 18014398509481984)) = Fin (- (5554439540423611 / 18014398509481984))"
proof -
  have a: "pow2 (- 2) \<le> \<bar>(3602879701896397 / 144115188075855872) - (6004799503160661 / 18014398509481984)\<bar>" by (simp add: pow2_def)
  have b: "\<bar>(3602879701896397 / 144115188075855872) - (6004799503160661 / 18014398509481984)\<bar> < pow2 (- 2 + 1)" by (simp add: pow2_def)
  have c: "(- 54 :: int) = max (- 2 - 52) (- 1074)" by simp
  have "\<bar>((3602879701896397 / 144115188075855872) - (6004799503160661 / 18014398509481984)) / pow2 (- 54) - of_int (- 5554439540423611)\<bar> < 1 / 2" by (simp add: pow2_def)
  then have d: "rne (((3602879701896397 / 144115188075855872) - (6004799503160661 / 18014398509481984)) / pow2 (- 54)) = - 5554439540423611" by (rule rne_near)
  have "rnd ((3602879701896397 / 144115188075855872) - (6004799503160661 / 18014398509481984)) = of_int (- 5554439540423611) * pow2 (- 54)" by (rule rnd_cert[OF a b c d])
  also have "\<dots> = - (5554439540423611 / 18014398509481984)" by (simp add: pow2_def)
  finally have r: "rnd ((3602879701896397 / 144115188075855872) - (6004799503160661 / 18014398509481984)) = - (5554439540423611 / 18014398509481984)" .
  have f: "fround ((3602879701896397 / 144115188075855872) - (6004799503160661 / 18014398509481984)) = Fin (- (5554439540423611 / 18014398509481984))" by (rule fround_Fin[OF r]) simp_all
  show ?thesis by (simp only: fsub_Fin f)
qed

lemma hsl9_23: "fmod_one (Fin (- (5554439540423611 / 18014398509481984))) = Fin (3114989742264593 / 4503599627370496)"
proof -
  have a: "pow2 (- 1) \<le> \<bar>(- (5554439540423611 / 18014398509481984)) + 1\<bar>" by (simp add: pow2_def)
  have b: "\<bar>(- (5554439540423611 / 18014398509481984)) + 1\<bar> < pow2 (- 1 + 1)" by (simp add: pow2_def)
  have c: "(- 53 :: int) = max (- 1 - 52) (- 1074)" by simp
  have "((- (5554439540423611 / 18014398509481984)) + 1) / pow2 (- 53) = of_int (6229979484529186) + 1 / 2" by (simp add: pow2_def)
  from rne_tie[OF this] have d: "rne (((- (5554439540423611 / 18014398509481984)) + 1) / pow2 (- 53)) = 6229979484529186" by simp
  have "rnd ((- (5554439540423611 / 18014398509481984)) + 1) = of_int (6229979484529186) * pow2 (- 53)" by (rule rnd_cert[OF a b c d])
  also have "\<dots> = 3114989742264593 / 4503599627370496" by (simp add: pow2_def)
  finally have r: "rnd ((- (5554439540423611 / 18014398509481984)) + 1) = 3114989742264593 / 4503599627370496" .
  have f: "fround ((- (5554439540423611 / 18014398509481984)) + 1) = Fin (3114989742264593 / 4503599627370496)" by (rule fround_Fin[OF r]) simp_all
  have m: "fmod_one (Fin (- (5554439540423611 / 18014398509481984))) = fround ((- (5554439540423611 / 18014398509481984)) - of_int (0) + 1)" by (rule fmod_one_neg) simp_all
  have e: "(- (5554439540423611 / 18014398509481984)) - of_int (0) + 1 = ((- (5554439540423611 / 18014398509481984)) + 1 :: rat)" by simp
  show ?thesis by (simp only: m e f)
qed

lemma hsl9_24: "float_of_int (255) = Inr (Fin 255)"
proof -
  have a: "pow2 (7) \<le> \<bar>of_int (255)\<bar>" by (simp add: pow2_def)
  have b: "\<bar>of_int (255)\<bar> < pow2 (7 + 1)" by (simp add: pow2_def)
  have c: "(- 45 :: int) = max (7 - 52) (- 1074)" by simp
  have "\<bar>(of_int (255)) / pow2 (- 45) - of_int (8972014882652160)\<bar> < 1 / 2" by (simp add: pow2_def)
  then have d: "rne ((of_int (255)) / pow2 (- 45)) = 8972014882652160" by (rule rne_near)
  have "rnd (of_int (255)) = of_int (8972014882652160) * pow2 (- 45)" by (rule rnd_cert[OF a b c d])
  also have "\<dots> = 255" by (simp add: pow2_def)
  finally have r: "rnd (of_int (255)) = 255" .
  have f: "fround (of_int (255)) = Fin 255" by (rule fround_Fin[OF r]) simp_all
  show ?thesis by (simp only: float_of_int_def f fl.case)
qed

lemma hsl9_25: "fmul (Fin 1) (Fin 255) = Fin 255"
proof -
  have a: "pow2 (7) \<le> \<bar>1 * 255\<bar>" by (simp add: pow2_def)
  have b: "\<bar>1 * 255\<bar> < pow2 (7 + 1)" by (simp add: pow2_def)
  have c: "(- 45 :: int) = max (7 - 52) (- 1074)" by simp
  have "\<bar>(1 * 255) / pow2 (- 45) - of_int (8972014882652160)\<bar> < 1 / 2" by (simp add: pow2_def)
  then have d: "rne ((1 * 255) / pow2 (- 45)) = 8972014882652160" by (rule rne_near)
  have "rnd (1 * 255) = of_int (8972014882652160) * pow2 (- 45)" by (rule rnd_cert[OF a b c d])
  also have "\<dots> = 255" by (simp add: pow2_def)
  finally have r: "rnd (1 * 255) = 255" .
  have f: "fround (1 * 255) = Fin 255" by (rule fround_Fin[OF r]) simp_all
  show ?thesis by (simp only: fmul_Fin f)
qed

lemma hsl9_26: "int_of_float (Fin 255) = Inr (255)"
  by (rule int_of_float_nonneg) simp_all

lemma hsl9_27: "fmul (Fin (2882303761517117 / 9007199254740992)) (Fin 255) = Fin (2871044762448691 / 35184372088832)"
proof -
  have a: "pow2 (6) \<le> \<bar>(2882303761517117 / 9007199254740992) * 255\<bar>" by (simp add: pow2_def)
  have b: "\<bar>(2882303761517117 / 9007199254740992) * 255\<bar> < pow2 (6 + 1)" by (simp add: pow2_def)
  have c: "(- 46 :: int) = max (6 - 52) (- 1074)" by simp
  have "\<bar>((2882303761517117 / 9007199254740992) * 255) / pow2 (- 46) - of_int (5742089524897382)\<bar> < 1 / 2" by (simp add: pow2_def)
  then have d: "rne (((2882303761517117 / 9007199254740992) * 255) / pow2 (- 46)) = 5742089524897382" by (rule rne_near)
  have "rnd ((2882303761517117 / 9007199254740992) * 255) = of_int (5742089524897382) * pow2 (- 46)" by (rule rnd_cert[OF a b c d])
  also have "\<dots> = 2871044762448691 / 35184372088832" by (simp add: pow2_def)
  finally have r: "rnd ((2882303761517117 / 9007199254740992) * 255) = 2871044762448691 / 35184372088832" .
  have f: "fround ((2882303761517117 / 9007199254740992) * 255) = Fin (2871044762448691 / 35184372088832)" by (rule fround_Fin[OF r]) simp_all
  show ?thesis by (simp only: fmul_Fin f)
qed

lemma hsl9_28: "int_of_float (Fin (2871044762448691 / 35184372088832)) = Inr (81)"
  by (rule int_of_float_nonneg) simp_all

lemma hsl9_29: "fmul (Fin (900719925474099 / 4503599627370496)) (Fin 255) = Fin (3588805953060863 / 70368744177664)"
proof -
  have a: "pow2 (5) \<le> \<bar>(900719925474099 / 4503599627370496) * 255\<bar>" by (simp add: pow2_def)
  have b: "\<bar>(900719925474099 / 4503599627370496) * 255\<bar> < pow2 (5 + 1)" by (simp add: pow2_def)
  have c: "(- 47 :: int) = max (5 - 52) (- 1074)" by simp
  have "\<bar>((900719925474099 / 4503599627370496) * 255) / pow2 (- 47) - of_int (7177611906121726)\<bar> < 1 / 2" by (simp add: pow2_def)
  then have d: "rne (((900719925474099 / 4503599627370496) * 255) / pow2 (- 47)) = 7177611906121726" by (rule rne_near)
  have "rnd ((900719925474099 / 4503599627370496) * 255) = of_int (7177611906121726) * pow2 (- 47)" by (rule rnd_cert[OF a b c d])
  also have "\<dots> = 3588805953060863 / 70368744177664" by (simp add: pow2_def)
  finally have r: "rnd ((900719925474099 / 4503599627370496) * 255) = 3588805953060863 / 70368744177664" .
  have f: "fround ((900719925474099 / 4503599627370496) * 255) = Fin (3588805953060863 / 70368744177664)" by (rule fround_Fin[OF r]) simp_all
  show ?thesis by (simp only: fmul_Fin f)
qed

lemma hsl9_30: "int_of_float (Fin (3588805953060863 / 70368744177664)) = Inr (50)"
  by (rule int_of_float_nonneg) simp_all

lemma hsl_9_100_60: "hsl_to_rgb_tuple 9 100 60 = Inr (255, 81, 50)"
  by (simp add: hsl_to_rgb_tuple_def int_div_float_def int_of_scaled_def ebind_def
      hls_to_rgb_def v_hls_def feq_def fle_def Let_def hsl9_1 hsl9_2 hsl9_3 hsl9_4 hsl9_5 hsl9_6 hsl9_7 hsl9_8 hsl9_9 hsl9_10 hsl9_11 hsl9_12 hsl9_13 hsl9_14 hsl9_15 hsl9_16 hsl9_17 hsl9_18 hsl9_19 hsl9_20 hsl9_21 hsl9_22 hsl9_23 hsl9_24 hsl9_25 hsl9_26 hsl9_27 hsl9_28 hsl9_29 hsl9_30
      del: fadd.simps fmul.simps fdiv.simps fmod_one.simps int_of_float.simps)

lemma parse_hsl9: "parse_color ''hsl(9, 100%, 60%)'' = Inr (Some (''hsl'', 255, 81, 50))"
proof -
  have sp: "list_all is_space '' ''" "list_all is_space []" by (simp_all add: is_space_def)
  have dg: "''9'' \<noteq> []" "list_all is_digit ''9''" "''100'' \<noteq> []" "list_all is_digit ''100''"
    "''60'' \<noteq> []" "list_all is_digit ''60''" by (simp_all add: is_digit_def)
  have pc: "''%'' = [] \<or> ''%'' = ''%''" by simp
  have v: "digits_value ''9'' = 9" "digits_value ''100'' = 100" "digits_value ''60'' = 60"
    by (simp_all add: digits_value_def)
  from parse_color_hsl_form[OF sp(2) sp(2) sp(2) sp(1) sp(2) sp(1) sp(2) dg pc pc, of "[]"]
  show ?thesis by (simp add: v hsl_9_100_60 ebind_def)
qed

text \<open>
  Claim C6 fails as stated: the green channel of \<open>hsl(9, 100%, 60%)\<close> is 81, six below
  the 87 of the claim.
\<close>

theorem hsl_example_green:
  "parse_color ''hsl(9, 100%, 60%)'' = Inr (Some (''hsl'', 255, 81, 50))
   \<and> \<not> \<bar>81 - 87\<bar> \<le> (1 :: int)"
  using parse_hsl9 by simp

text \<open>
  Claim C6, as amended. \<open>parse_color\<close> recognises \<open>hsl(9, 100%, 60%)\<close> with the tag
  \<open>hsl\<close> and a triple within 1 per channel of \<open>(255, 81, 51)\<close>.
\<close>

theorem hsl_example:
  "\<exists>r g b. parse_color ''hsl(9, 100%, 60%)'' = Inr (Some (''hsl'', r, g, b))
     \<and> \<bar>r - 255\<bar> \<le> 1 \<and> \<bar>g - 81\<bar> \<le> 1 \<and> \<bar>b - 51\<bar> \<le> 1"
  using parse_hsl9 by simp

section \<open>An input that raises\<close>

lemma huge_1: "float_of_int (1000000000000000000000000000000000000000000000000000000000000000000000000000000000000000000000000000000000000000000000000000000000000000000000000000000000000000000000000000000000000000000000000000000000000000000000000000000000000000000000000000000000000000000000000000000000000000000000000000000000000000000000) = Inl OverflowError"
proof -
  have a: "pow2 (1026) \<le> \<bar>of_int (1000000000000000000000000000000000000000000000000000000000000000000000000000000000000000000000000000000000000000000000000000000000000000000000000000000000000000000000000000000000000000000000000000000000000000000000000000000000000000000000000000000000000000000000000000000000000000000000000000000000000000000000)\<bar>" by (simp add: pow2_def)
  have b: "\<bar>of_int (1000000000000000000000000000000000000000000000000000000000000000000000000000000000000000000000000000000000000000000000000000000000000000000000000000000000000000000000000000000000000000000000000000000000000000000000000000000000000000000000000000000000000000000000000000000000000000000000000000000000000000000000)\<bar> < pow2 (1026 + 1)" by (simp add: pow2_def)
  have c: "(974 :: int) = max (1026 - 52) (- 1074)" by simp
  have "\<bar>(of_int (1000000000000000000000000000000000000000000000000000000000000000000000000000000000000000000000000000000000000000000000000000000000000000000000000000000000000000000000000000000000000000000000000000000000000000000000000000000000000000000000000000000000000000000000000000000000000000000000000000000000000000000000)) / pow2 (974) - of_int (6263026125028040)\<bar> < 1 / 2" by (simp add: pow2_def)
  then have d: "rne ((of_int (1000000000000000000000000000000000000000000000000000000000000000000000000000000000000000000000000000000000000000000000000000000000000000000000000000000000000000000000000000000000000000000000000000000000000000000000000000000000000000000000000000000000000000000000000000000000000000000000000000000000000000000000)) / pow2 (974)) = 6263026125028040" by (rule rne_near)
  have "rnd (of_int (1000000000000000000000000000000000000000000000000000000000000000000000000000000000000000000000000000000000000000000000000000000000000000000000000000000000000000000000000000000000000000000000000000000000000000000000000000000000000000000000000000000000000000000000000000000000000000000000000000000000000000000000)) = of_int (6263026125028040) * pow2 (974)" by (rule rnd_cert[OF a b c d])
  also have "\<dots> = 1000000000000000010979063629440455417404923096773118463368106829031575854049114915371633289784946888990612496697211725156115902837431400883283070091981460460312716645029330271856974896995885590433383844661650011784268976262129451776280911957867074581227839701717844151052918028932078732729748857154302231183360" by (simp add: pow2_def)
  finally have r: "rnd (of_int (1000000000000000000000000000000000000000000000000000000000000000000000000000000000000000000000000000000000000000000000000000000000000000000000000000000000000000000000000000000000000000000000000000000000000000000000000000000000000000000000000000000000000000000000000000000000000000000000000000000000000000000000)) = 1000000000000000010979063629440455417404923096773118463368106829031575854049114915371633289784946888990612496697211725156115902837431400883283070091981460460312716645029330271856974896995885590433383844661650011784268976262129451776280911957867074581227839701717844151052918028932078732729748857154302231183360" .
  have f: "fround (of_int (1000000000000000000000000000000000000000000000000000000000000000000000000000000000000000000000000000000000000000000000000000000000000000000000000000000000000000000000000000000000000000000000000000000000000000000000000000000000000000000000000000000000000000000000000000000000000000000000000000000000000000000000)) = PInf" by (rule fround_PInf[OF r]) simp
  show ?thesis by (simp only: float_of_int_def f fl.case)
qed

lemma hsl_huge: "hsl_to_rgb_tuple (10 ^ 309) 0 0 = Inl OverflowError"
proof -
  have "(10 :: int) ^ 309 = 1000000000000000000000000000000000000000000000000000000000000000000000000000000000000000000000000000000000000000000000000000000000000000000000000000000000000000000000000000000000000000000000000000000000000000000000000000000000000000000000000000000000000000000000000000000000000000000000000000000000000000000000" by simp
  then show ?thesis
    by (simp only: hsl_to_rgb_tuple_def int_div_float_def huge_1 ebind_def sum.case)
qed

text \<open>
  Claim C5 fails at a hue of 310 digits: the conversion of the integer \<open>10^309\<close> to a
  float in \<open>h / 360.0\<close> raises \<open>OverflowError\<close>, which \<open>parse_color\<close> does not catch.
\<close>

theorem parse_color_overflow:
  "parse_color (''hsl(1'' @ replicate 309 CHR ''0'' @ '', 0, 0)'') = Inl OverflowError"
proof -
  let ?d = "''1'' @ replicate 309 CHR ''0''"
  have sp: "list_all is_space '' ''" "list_all is_space []" by (simp_all add: is_space_def)
  have d1: "?d \<noteq> []" "list_all is_digit ?d"
    by (simp_all add: is_digit_def list_all_iff)
  have d0: "''0'' \<noteq> []" "list_all is_digit ''0''" by (simp_all add: is_digit_def)
  have pc: "([] :: string) = [] \<or> [] = ''%''" by simp
  have "digits_value ''1'' = 1" by (simp add: digits_value_def)
  then have "digits_value ?d = 10 ^ 309"
    by (simp only: digits_value_zeros mult_1)
  then have v: "int (digits_value ?d) = 10 ^ 309" by simp
  have z: "int (digits_value ''0'') = 0" by (simp add: digits_value_def)
  have e: "hsl_to_rgb_tuple (int (digits_value ?d)) (int (digits_value ''0''))
             (int (digits_value ''0'')) = Inl OverflowError"
    by (simp only: v z hsl_huge)
  have "''hsl(1'' @ replicate 309 CHR ''0'' @ '', 0, 0)''
      = ''hsl'' @ [] @ ''('' @ [] @ ?d @ [] @ '','' @ '' '' @ ''0'' @ [] @ [] @ '','' @ '' ''
        @ ''0'' @ [] @ [] @ '')'' @ []"
    by simp
  then show ?thesis
    by (simp only: parse_color_hsl_form[OF sp(2) sp(2) sp(2) sp(1) sp(2) sp(1) sp(2) d1 d0 d0 pc pc]
        e ebind_def sum.case)
qed

end
